theory Spec2Isabelle
  imports Complex_Main "HOL-Library.Log_Nat"
begin

section \<open>Values, errors and the Python library\<close>

text \<open>
  The program is \<^verbatim>\<open>application.py\<close>: a class \<^verbatim>\<open>Token\<close> and a class
  \<^verbatim>\<open>PokemonGoFriendsBot\<close>. Python is dynamically typed, and the fields of a token
  receive whatever the decoded JSON body of a response holds, so field values are
  decoded JSON values. A JSON object is an association list read with \<open>map_of\<close>.
  A float is the rational that its double denotes, and the operations on floats
  round to the nearest double (see below); floats that are not finite are not
  modelled.
\<close>

datatype json =
    JNull
  | JBool bool
  | JInt int
  | JFloat rat
  | JStr string
  | JList "json list"
  | JObj "(string \<times> json) list"

text \<open>The exceptions that the code can raise; none of them is caught by the program.\<close>

datatype error =
    AttributeError
  | KeyError string
  | TypeError
  | ValueError
  | UnicodeEncodeError
  | ConnectionError

text \<open>
  Three functions of the Python library whose results are not fixed here are
  parameters: \<open>str_of\<close> is the rendering of a value that is not a \<^verbatim>\<open>str\<close> inside an
  f-string, \<open>int_of_str\<close> is \<^verbatim>\<open>int()\<close> on a \<^verbatim>\<open>str\<close> (\<open>None\<close> for \<^verbatim>\<open>ValueError\<close>),
  \<open>b64encode\<close> is \<^verbatim>\<open>base64.b64encode\<close>.
\<close>

record pylib =
  str_of :: "json \<Rightarrow> string"
  int_of_str :: "string \<Rightarrow> int option"
  b64encode :: "string \<Rightarrow> string"

text \<open>\<^verbatim>\<open>v[k]\<close> for a string key: \<^verbatim>\<open>KeyError\<close> on a dict without the key,
  \<^verbatim>\<open>TypeError\<close> on every value that is not a dict.\<close>

fun getitem :: "json \<Rightarrow> string \<Rightarrow> error + json" where
  "getitem (JObj kvs) k = (case map_of kvs k of None \<Rightarrow> Inl (KeyError k) | Some v \<Rightarrow> Inr v)"
| "getitem _ k = Inl TypeError"

text \<open>\<^verbatim>\<open>int(v)\<close>: floats truncate towards zero.\<close>

fun py_int :: "pylib \<Rightarrow> json \<Rightarrow> error + int" where
  "py_int L (JInt n) = Inr n"
| "py_int L (JBool b) = Inr (if b then 1 else 0)"
| "py_int L (JFloat r) = Inr (if r < 0 then - \<lfloor>- r\<rfloor> else \<lfloor>r\<rfloor>)"
| "py_int L (JStr s) = (case int_of_str L s of None \<Rightarrow> Inl ValueError | Some n \<Rightarrow> Inr n)"
| "py_int L _ = Inl TypeError"

text \<open>The numeric value of a number; \<open>None\<close> for a value that is not a number, where
  \<^verbatim>\<open>v - 60\<close> is a \<^verbatim>\<open>TypeError\<close>.\<close>

fun py_num :: "json \<Rightarrow> rat option" where
  "py_num (JInt n) = Some (of_int n)"
| "py_num (JBool b) = Some (if b then 1 else 0)"
| "py_num (JFloat r) = Some r"
| "py_num _ = None"

text \<open>Truth value of a value in \<^verbatim>\<open>if v:\<close>.\<close>

fun truthy :: "json \<Rightarrow> bool" where
  "truthy JNull = False"
| "truthy (JBool b) = b"
| "truthy (JInt n) = (n \<noteq> 0)"
| "truthy (JFloat r) = (r \<noteq> 0)"
| "truthy (JStr s) = (s \<noteq> [])"
| "truthy (JList xs) = (xs \<noteq> [])"
| "truthy (JObj kvs) = (kvs \<noteq> [])"

text \<open>A value inside an f-string: a \<^verbatim>\<open>str\<close> is itself.\<close>

fun fmt :: "pylib \<Rightarrow> json \<Rightarrow> string" where
  "fmt L (JStr s) = s"
| "fmt L v = str_of L v"

text \<open>\<^verbatim>\<open>s.encode('ascii')\<close> raises on a character above 127.\<close>

definition encode_ascii :: "string \<Rightarrow> error + string" where
  "encode_ascii s =
     (if list_all (\<lambda>c. (of_char c :: nat) < 128) s then Inr s else Inl UnicodeEncodeError)"

section \<open>Floating point\<close>

text \<open>
  A Python \<^verbatim>\<open>float\<close> is a double: 53 bits of precision, results rounded to the
  nearest double, ties to the even one. \<open>exponent x\<close> is the integer \<open>e\<close> with
  \<open>2 ^ e \<le> |x| < 2 ^ (e + 1)\<close>, so the doubles around \<open>x\<close> are the multiples of
  \<open>2 ^ (e - 52)\<close>, and \<open>double x\<close> is the nearest of them. The exponent has no bound
  here: overflow and subnormal numbers, which the quantities of this program are far
  from, are not modelled.
\<close>

definition exponent :: "rat \<Rightarrow> int" where
  "exponent x =
     (if \<bar>x\<bar> \<ge> 1 then bitlen \<lfloor>\<bar>x\<bar>\<rfloor> - 1 else - bitlen (\<lceil>1 / \<bar>x\<bar>\<rceil> - 1))"

definition round_half_even :: "rat \<Rightarrow> int" where
  "round_half_even y =
     (let f = \<lfloor>y\<rfloor>; d = y - of_int f
      in if d < 1 / 2 then f else if 1 / 2 < d then f + 1 else if even f then f else f + 1)"

definition double :: "rat \<Rightarrow> rat" where
  "double x =
     (if x = 0 then 0
      else (let q = power_int 2 (exponent x - 52)
            in of_int (round_half_even (x / q)) * q))"

text \<open>\<^verbatim>\<open>v - 60\<close>: exact on \<^verbatim>\<open>int\<close> and \<^verbatim>\<open>bool\<close>, a float subtraction on a
  \<^verbatim>\<open>float\<close>, a \<^verbatim>\<open>TypeError\<close> on everything else.\<close>

fun py_sub_60 :: "json \<Rightarrow> error + rat" where
  "py_sub_60 (JInt n) = Inr (of_int n - 60)"
| "py_sub_60 (JBool b) = Inr ((if b then 1 else 0) - 60)"
| "py_sub_60 (JFloat r) = Inr (double (r - 60))"
| "py_sub_60 _ = Inl TypeError"

section \<open>Token\<close>

text \<open>
  Timestamps and durations are seconds, as rationals. A \<^verbatim>\<open>datetime\<close> is a whole
  number of microseconds, and so is the difference of two of them;
  \<^verbatim>\<open>total_seconds()\<close> divides that number by a million as a float, which is the
  difference in seconds rounded to the nearest double.
\<close>

type_synonym time = rat

definition total_seconds :: "time \<Rightarrow> rat" where
  "total_seconds d = double d"

record Token =
  access_token :: json
  expires_in :: json
  scope :: json
  refresh_token :: json
  token_type :: string
  issued_at :: time

text \<open>\<^verbatim>\<open>__str__\<close>.\<close>

definition Token_str :: "pylib \<Rightarrow> Token \<Rightarrow> string" where
  "Token_str L t = token_type t @ '' '' @ fmt L (access_token t)"

text \<open>
  The property \<^verbatim>\<open>is_expired\<close>; \<open>now\<close> is what \<^verbatim>\<open>datetime.now()\<close> returns. The body
  reads the token and assigns nothing, so the result is the truth value alone. The
  left side of \<^verbatim>\<open>>=\<close> is a float; Python compares a float with an \<^verbatim>\<open>int\<close> or with
  another float by their exact values.
\<close>

definition is_expired :: "Token \<Rightarrow> time \<Rightarrow> error + bool" where
  "is_expired t now =
     (case py_sub_60 (expires_in t) of
        Inl e \<Rightarrow> Inl e
      | Inr k \<Rightarrow> Inr (total_seconds (now - issued_at t) \<ge> k))"

text \<open>
  \<^verbatim>\<open>refresh\<close> assigns field after field, so an exception at the second or third
  subscript leaves the earlier assignments in place: the token is returned in both
  cases. \<open>now\<close> is the clock at the call.
\<close>

definition refresh :: "Token \<Rightarrow> json \<Rightarrow> time \<Rightarrow> (error + unit) \<times> Token" where
  "refresh t response now =
     (case getitem response ''access_token'' of
        Inl e \<Rightarrow> (Inl e, t)
      | Inr a \<Rightarrow>
          (let t1 = t\<lparr>access_token := a\<rparr> in
           case getitem response ''expires_in'' of
             Inl e \<Rightarrow> (Inl e, t1)
           | Inr x \<Rightarrow>
               (let t2 = t1\<lparr>expires_in := x\<rparr> in
                case getitem response ''scope'' of
                  Inl e \<Rightarrow> (Inl e, t2)
                | Inr s \<Rightarrow> (Inr (), t2\<lparr>scope := s, issued_at := now\<rparr>))))"

section \<open>The environment\<close>

text \<open>
  What is outside the two classes: the clock, the network, the source of random
  identifiers, the default value of \<^verbatim>\<open>Token.issued_at\<close>, which the class statement
  evaluates once, and the effects that the program has had so far. The network is
  an oracle: its \<open>n\<close>-th entry is how long the \<open>n\<close>-th request takes and whether it is
  answered or \<^verbatim>\<open>requests\<close> raises. The body of a response is \<open>None\<close> when \<^verbatim>\<open>r.json()\<close>
  raises.
\<close>

record response =
  status_code :: int
  url :: string
  body :: "json option"

datatype outcome = Answer response | Raise error

datatype level = DEBUG | INFO | ERROR

datatype event =
    Log level string
  | Print string
  | Get string "(string \<times> string) list" "(string \<times> string) list"
  | Post string "(string \<times> string) list" "(string \<times> json) list"
  | Sleep time
  | BrowserOpen string int

record world =
  clock :: time
  network :: "nat \<Rightarrow> time \<times> outcome"
  requests_made :: nat
  uuid4 :: "nat \<Rightarrow> string"
  uuid4_calls :: nat
  Token_issued_at_default :: time
  trace :: "event list"

definition logging :: "level \<Rightarrow> string \<Rightarrow> world \<Rightarrow> world" where
  "logging l msg w = w\<lparr>trace := trace w @ [Log l msg]\<rparr>"

definition print :: "string \<Rightarrow> world \<Rightarrow> world" where
  "print msg w = w\<lparr>trace := trace w @ [Print msg]\<rparr>"

definition time_sleep :: "time \<Rightarrow> world \<Rightarrow> world" where
  "time_sleep d w = w\<lparr>clock := clock w + d, trace := trace w @ [Sleep d]\<rparr>"

definition webbrowser_open :: "string \<Rightarrow> int \<Rightarrow> world \<Rightarrow> world" where
  "webbrowser_open u new w = w\<lparr>trace := trace w @ [BrowserOpen u new]\<rparr>"

text \<open>\<^verbatim>\<open>f"{uuid4()}"\<close>: the next identifier of the source.\<close>

definition uuid4_str :: "world \<Rightarrow> string \<times> world" where
  "uuid4_str w = (uuid4 w (uuid4_calls w), w\<lparr>uuid4_calls := Suc (uuid4_calls w)\<rparr>)"

text \<open>A request is recorded, takes its time and has the outcome that the network
  gives it.\<close>

definition send :: "event \<Rightarrow> world \<Rightarrow> (error + response) \<times> world" where
  "send ev w =
     (let (d, out) = network w (requests_made w);
          w' = w\<lparr>clock := clock w + d, requests_made := Suc (requests_made w),
                 trace := trace w @ [ev]\<rparr>
      in (case out of Answer r \<Rightarrow> Inr r | Raise e \<Rightarrow> Inl e, w'))"

definition requests_get ::
  "string \<Rightarrow> (string \<times> string) list \<Rightarrow> (string \<times> string) list \<Rightarrow> world
    \<Rightarrow> (error + response) \<times> world" where
  "requests_get u params headers w = send (Get u params headers) w"

definition requests_post ::
  "string \<Rightarrow> (string \<times> string) list \<Rightarrow> (string \<times> json) list \<Rightarrow> world
    \<Rightarrow> (error + response) \<times> world" where
  "requests_post u headers data w = send (Post u headers data) w"

text \<open>The class statement of \<^verbatim>\<open>Token\<close> runs \<^verbatim>\<open>datetime.now()\<close> for the default of
  \<^verbatim>\<open>issued_at\<close>; nothing else writes this default.\<close>

definition define_Token :: "world \<Rightarrow> world" where
  "define_Token w = w\<lparr>Token_issued_at_default := clock w\<rparr>"

section \<open>PokemonGoFriendsBot\<close>

definition COMMON_API_URI :: string where
  "COMMON_API_URI = ''https://www.reddit.com/api/v1''"

definition OAUTH_API_URI :: string where
  "OAUTH_API_URI = ''https://oauth.reddit.com/api''"

definition REDIRECT_URI :: string where
  "REDIRECT_URI = ''https://www.reddit.com/r/PokemonGoFriends''"

text \<open>The value that every request sends as \<^verbatim>\<open>User-Agent\<close>.\<close>

definition USER_AGENT :: string where
  "USER_AGENT =
     ''Mozilla/5.0 (Windows NT 10.0; Win64; x64; rv:100.0) Gecko/20100101 Firefox/100.0''"

text \<open>The fields of \<^verbatim>\<open>self\<close>. Python's \<^verbatim>\<open>None\<close> in \<open>last_comment_fullname\<close> is \<open>JNull\<close>.\<close>

record bot =
  client_id :: string
  client_secret :: string
  message :: string
  token :: "Token option"
  last_comment_fullname :: json

text \<open>\<^verbatim>\<open>authorize_application\<close> (lines 44 to 66). It does not assign to \<^verbatim>\<open>self\<close>, so the
  world alone is returned with the result.\<close>

definition authorize_application :: "bot \<Rightarrow> world \<Rightarrow> (error + bool) \<times> world" where
  "authorize_application self w =
     (let w1 = logging INFO ''Authorizing application...'' w;
          (state, w2) = uuid4_str w1;
          params = [(''client_id'', client_id self), (''response_type'', ''code''),
                    (''state'', state), (''redirect_uri'', REDIRECT_URI),
                    (''duration'', ''permanent''), (''scope'', ''edit submit'')];
          headers = [(''User-Agent'', USER_AGENT)]
      in case requests_get (COMMON_API_URI @ ''/authorize'') params headers w2 of
           (Inl e, w3) \<Rightarrow> (Inl e, w3)
         | (Inr r, w3) \<Rightarrow>
             if status_code r = 200 then (Inr True, webbrowser_open (url r) 2 w3)
             else (Inr False, w3))"

text \<open>The constructor call of \<^verbatim>\<open>authenticate_session\<close>: the keyword arguments are
  evaluated from left to right, \<^verbatim>\<open>token_type\<close> and \<^verbatim>\<open>issued_at\<close> take their defaults.\<close>

definition new_Token :: "pylib \<Rightarrow> json \<Rightarrow> world \<Rightarrow> error + Token" where
  "new_Token L r_json w =
     (case getitem r_json ''access_token'' of
        Inl e \<Rightarrow> Inl e
      | Inr a \<Rightarrow>
     (case getitem r_json ''expires_in'' of
        Inl e \<Rightarrow> Inl e
      | Inr x \<Rightarrow>
     (case py_int L x of
        Inl e \<Rightarrow> Inl e
      | Inr n \<Rightarrow>
     (case getitem r_json ''scope'' of
        Inl e \<Rightarrow> Inl e
      | Inr s \<Rightarrow>
     (case getitem r_json ''refresh_token'' of
        Inl e \<Rightarrow> Inl e
      | Inr rt \<Rightarrow>
          Inr \<lparr>access_token = a, expires_in = JInt n, scope = s, refresh_token = rt,
               token_type = ''bearer'', issued_at = Token_issued_at_default w\<rparr>)))))"

text \<open>The \<^verbatim>\<open>data\<close> of the token request; \<^verbatim>\<open>self.token.refresh_token\<close> raises on
  \<^verbatim>\<open>None\<close>.\<close>

definition token_request_data :: "bot \<Rightarrow> string option \<Rightarrow> bool \<Rightarrow> error + (string \<times> json) list" where
  "token_request_data self code is_refresh =
     (if is_refresh then
        (case token self of
           None \<Rightarrow> Inl AttributeError
         | Some t \<Rightarrow>
             Inr [(''grant_type'', JStr ''refresh_token''), (''refresh_token'', refresh_token t)])
      else
        Inr [(''grant_type'', JStr ''authorization_code''),
             (''code'', case code of None \<Rightarrow> JNull | Some c \<Rightarrow> JStr c),
             (''redirect_uri'', JStr REDIRECT_URI)])"

text \<open>
  \<^verbatim>\<open>authenticate_session\<close> (lines 68 to 110). The headers are built before the data,
  so a credential that is not ASCII raises first. On a refresh the token object is
  changed in place, also when \<^verbatim>\<open>refresh\<close> raises half way.
\<close>

definition authenticate_session ::
  "pylib \<Rightarrow> bot \<Rightarrow> string option \<Rightarrow> bool \<Rightarrow> world \<Rightarrow> (error + bool) \<times> bot \<times> world" where
  "authenticate_session L self code is_refresh w =
     (let w1 = logging INFO ''Initializing session...'' w in
      case encode_ascii (client_id self @ '':'' @ client_secret self) of
        Inl e \<Rightarrow> (Inl e, self, w1)
      | Inr cred \<Rightarrow>
     (let headers = [(''Authorization'', ''Basic '' @ b64encode L cred),
                     (''User-Agent'', USER_AGENT)] in
      case token_request_data self code is_refresh of
        Inl e \<Rightarrow> (Inl e, self, w1)
      | Inr data \<Rightarrow>
     (case requests_post (COMMON_API_URI @ ''/access_token'') headers data w1 of
        (Inl e, w2) \<Rightarrow> (Inl e, self, w2)
      | (Inr r, w2) \<Rightarrow>
          if status_code r = 200 then
            (case body r of
               None \<Rightarrow> (Inr False, self, logging DEBUG ''Could not load access token...'' w2)
             | Some r_json \<Rightarrow>
                 if is_refresh then
                   (case token self of
                      None \<Rightarrow> (Inl AttributeError, self, w2)
                    | Some t \<Rightarrow>
                        (case refresh t r_json (clock w2) of
                           (Inl e, t') \<Rightarrow> (Inl e, self\<lparr>token := Some t'\<rparr>, w2)
                         | (Inr u, t') \<Rightarrow>
                             (Inr True, self\<lparr>token := Some t'\<rparr>,
                              print ''> Successfully refreshed authentication token.'' w2)))
                 else
                   (case new_Token L r_json w2 of
                      Inl e \<Rightarrow> (Inl e, self, w2)
                    | Inr t \<Rightarrow>
                        (Inr True, self\<lparr>token := Some t\<rparr>,
                         print ''> Successfully obtained authentication token.'' w2)))
          else (Inr False, self, w2))))"

text \<open>\<^verbatim>\<open>check_token_expiration\<close> (lines 183 to 187): the result of the refresh call is
  dropped, its exception is not caught.\<close>

definition check_token_expiration ::
  "pylib \<Rightarrow> bot \<Rightarrow> world \<Rightarrow> (error + unit) \<times> bot \<times> world" where
  "check_token_expiration L self w =
     (case token self of
        None \<Rightarrow> (Inl AttributeError, self, w)
      | Some t \<Rightarrow>
          (case is_expired t (clock w) of
             Inl e \<Rightarrow> (Inl e, self, w)
           | Inr expired \<Rightarrow>
               if \<not> expired then (Inr (), self, w)
               else
                 (case authenticate_session L self None True w of
                    (Inl e, self', w') \<Rightarrow> (Inl e, self', w')
                  | (Inr ok, self', w') \<Rightarrow> (Inr (), self', w'))))"

text \<open>\<^verbatim>\<open>f"{self.token}"\<close>.\<close>

definition fmt_token :: "pylib \<Rightarrow> Token option \<Rightarrow> string" where
  "fmt_token L tok = (case tok of None \<Rightarrow> ''None'' | Some t \<Rightarrow> Token_str L t)"

text \<open>\<^verbatim>\<open>post_comment\<close> (lines 126 to 158): only \<^verbatim>\<open>r.json()\<close> is inside the \<^verbatim>\<open>try\<close>; the
  subscript \<^verbatim>\<open>r_json['name']\<close> is after it.\<close>

definition post_comment :: "pylib \<Rightarrow> bot \<Rightarrow> world \<Rightarrow> (error + bool) \<times> bot \<times> world" where
  "post_comment L self w =
     (case check_token_expiration L self w of
        (Inl e, self1, w1) \<Rightarrow> (Inl e, self1, w1)
      | (Inr u, self1, w1) \<Rightarrow>
     (let w2 = logging INFO ''Posting comment...'' w1;
          data = [(''api_type'', JStr ''json''), (''return_rtjson'', JBool True),
                  (''text'', JStr (message self1)), (''thing_id'', JStr ''t3_so87rb'')];
          headers = [(''Authorization'', fmt_token L (token self1)),
                     (''User-Agent'', USER_AGENT)]
      in case requests_post (OAUTH_API_URI @ ''/comment'') headers data w2 of
           (Inl e, w3) \<Rightarrow> (Inl e, self1, w3)
         | (Inr r, w3) \<Rightarrow>
             if status_code r = 200 then
               (case body r of
                  None \<Rightarrow>
                    (Inr False, self1, logging DEBUG ''Could not load access token...'' w3)
                | Some r_json \<Rightarrow>
                    (case getitem r_json ''name'' of
                       Inl e \<Rightarrow> (Inl e, self1, w3)
                     | Inr v \<Rightarrow>
                         (Inr True, self1\<lparr>last_comment_fullname := v\<rparr>,
                          print ''> Successfully posted comment.'' w3)))
             else
               (Inr False, self1,
                logging ERROR ''[!] Unable to post new comment. Exiting...'' w3)))"

text \<open>\<^verbatim>\<open>delete_comment\<close> (lines 160 to 181).\<close>

definition delete_comment :: "pylib \<Rightarrow> bot \<Rightarrow> world \<Rightarrow> (error + bool) \<times> bot \<times> world" where
  "delete_comment L self w =
     (case check_token_expiration L self w of
        (Inl e, self1, w1) \<Rightarrow> (Inl e, self1, w1)
      | (Inr u, self1, w1) \<Rightarrow>
     (let w2 = logging INFO ''Deleting previous comment...'' w1;
          data = [(''id'', last_comment_fullname self1)];
          headers = [(''Authorization'', fmt_token L (token self1)),
                     (''User-Agent'', USER_AGENT)]
      in case requests_post (OAUTH_API_URI @ ''/del'') headers data w2 of
           (Inl e, w3) \<Rightarrow> (Inl e, self1, w3)
         | (Inr r, w3) \<Rightarrow>
             if status_code r = 200 then
               (Inr True, self1, print ''> Successfully deleted last comment.'' w3)
             else
               (Inr False, self1,
                logging ERROR ''[!] Unable to delete latest comment. Exiting...'' w3)))"

text \<open>
  \<^verbatim>\<open>run\<close> (lines 112 to 124). The second sleep is inside the block of
  \<^verbatim>\<open>if self.last_comment_fullname\<close>, after the delete.
  The loop of \<^verbatim>\<open>run\<close> has no bound, so it takes fuel: one unit for each iteration,
  and \<open>None\<close> when the iterations allowed are used up and the loop is still going.
  \<open>Some\<close> is the loop left by \<^verbatim>\<open>break\<close> (\<open>Inr ()\<close>) or by an exception.
\<close>

fun run_loop :: "pylib \<Rightarrow> nat \<Rightarrow> bot \<Rightarrow> world \<Rightarrow> ((error + unit) \<times> bot \<times> world) option" where
  "run_loop L 0 self w = None"
| "run_loop L (Suc n) self w =
     (case post_comment L self w of
        (Inl e, self1, w1) \<Rightarrow> Some (Inl e, self1, w1)
      | (Inr posted, self1, w1) \<Rightarrow>
          if \<not> posted then Some (Inr (), self1, w1)
          else
            (let w2 = time_sleep (60 * 15 * 1) w1 in
             if truthy (last_comment_fullname self1) then
               (case delete_comment L self1 w2 of
                  (Inl e, self2, w3) \<Rightarrow> Some (Inl e, self2, w3)
                | (Inr deleted, self2, w3) \<Rightarrow>
                    if \<not> deleted then Some (Inr (), self2, w3)
                    else run_loop L n self2 (time_sleep (15 * 1 * 1) w3))
             else run_loop L n self1 w2))"

definition run :: "pylib \<Rightarrow> nat \<Rightarrow> bot \<Rightarrow> world \<Rightarrow> ((error + unit) \<times> bot \<times> world) option" where
  "run L n self w = run_loop L n self (logging INFO ''Running...'' w)"

text \<open>
  The cycle as the specification words it, to be compared with \<open>run_loop\<close>: post,
  stop if posting fails, sleep 15 minutes, delete if an identifier is present and stop
  if deleting fails, sleep 15 seconds, repeat. An identifier is present when the test
  \<^verbatim>\<open>if self.last_comment_fullname\<close> succeeds.
\<close>

fun run_loop_spec ::
  "pylib \<Rightarrow> nat \<Rightarrow> bot \<Rightarrow> world \<Rightarrow> ((error + unit) \<times> bot \<times> world) option" where
  "run_loop_spec L 0 self w = None"
| "run_loop_spec L (Suc n) self w =
     (case post_comment L self w of
        (Inl e, self1, w1) \<Rightarrow> Some (Inl e, self1, w1)
      | (Inr posted, self1, w1) \<Rightarrow>
          if \<not> posted then Some (Inr (), self1, w1)
          else
            (let w2 = time_sleep (60 * 15 * 1) w1 in
             if truthy (last_comment_fullname self1) then
               (case delete_comment L self1 w2 of
                  (Inl e, self2, w3) \<Rightarrow> Some (Inl e, self2, w3)
                | (Inr deleted, self2, w3) \<Rightarrow>
                    if \<not> deleted then Some (Inr (), self2, w3)
                    else run_loop_spec L n self2 (time_sleep (15 * 1 * 1) w3))
             else run_loop_spec L n self1 (time_sleep (15 * 1 * 1) w2)))"

section \<open>Reading a trace\<close>

text \<open>A request to the delete endpoint, which only \<open>delete_comment\<close> sends.\<close>

fun is_del :: "event \<Rightarrow> bool" where
  "is_del (Post u headers data) = (u = OAUTH_API_URI @ ''/del'')"
| "is_del _ = False"

text \<open>
  A world in which the loop cannot fail: every request from now on is answered with
  status 200 and an object that has a non-empty \<open>name\<close> and the three fields that a
  refresh reads, with a number as \<open>expires_in\<close>.
\<close>

definition good_answer :: "response \<Rightarrow> bool" where
  "good_answer r \<longleftrightarrow>
     status_code r = 200 \<and>
     (case body r of
        Some (JObj kvs) \<Rightarrow>
          (case map_of kvs ''name'' of Some v \<Rightarrow> truthy v | None \<Rightarrow> False) \<and>
          map_of kvs ''access_token'' \<noteq> None \<and>
          (case map_of kvs ''expires_in'' of Some x \<Rightarrow> py_num x \<noteq> None | None \<Rightarrow> False) \<and>
          map_of kvs ''scope'' \<noteq> None
      | _ \<Rightarrow> False)"

definition always_good :: "world \<Rightarrow> bool" where
  "always_good w \<longleftrightarrow>
     (\<forall>i\<ge>requests_made w. case snd (network w i) of Answer r \<Rightarrow> good_answer r | Raise e \<Rightarrow> False)"

text \<open>The controller can send its requests: the credentials are ASCII and there is a
  token whose \<open>expires_in\<close> is a number.\<close>

definition ready :: "bot \<Rightarrow> bool" where
  "ready self \<longleftrightarrow>
     encode_ascii (client_id self @ '':'' @ client_secret self)
       = Inr (client_id self @ '':'' @ client_secret self) \<and>
     (case token self of Some t \<Rightarrow> py_num (expires_in t) \<noteq> None | None \<Rightarrow> False)"

section \<open>Concrete inputs\<close>

definition lib0 :: pylib where
  "lib0 = \<lparr>str_of = (\<lambda>v. ''?''), int_of_str = (\<lambda>s. None), b64encode = (\<lambda>s. s)\<rparr>"

text \<open>A network that gives the listed outcomes and then is unreachable.\<close>

definition script :: "(time \<times> outcome) list \<Rightarrow> nat \<Rightarrow> time \<times> outcome" where
  "script xs i = (if i < length xs then xs ! i else (0, Raise ConnectionError))"

definition answer :: "int \<Rightarrow> json option \<Rightarrow> time \<times> outcome" where
  "answer st b = (1, Answer \<lparr>status_code = st, url = ''https://www.reddit.com/'', body = b\<rparr>)"

definition world0 :: "(nat \<Rightarrow> time \<times> outcome) \<Rightarrow> world" where
  "world0 net =
     \<lparr>clock = 0, network = net, requests_made = 0, uuid4 = (\<lambda>i. ''uuid''), uuid4_calls = 0,
      Token_issued_at_default = 0, trace = []\<rparr>"

definition token0 :: Token where
  "token0 =
     \<lparr>access_token = JStr ''A'', expires_in = JInt 3600, scope = JStr ''edit submit'',
      refresh_token = JStr ''R'', token_type = ''bearer'', issued_at = 0\<rparr>"

definition bot0 :: bot where
  "bot0 =
     \<lparr>client_id = ''id'', client_secret = ''secret'', message = ''hello'', token = None,
      last_comment_fullname = JNull\<rparr>"

definition bot1 :: bot where
  "bot1 = bot0\<lparr>token := Some token0\<rparr>"

text \<open>A network that answers every request with status 200 and the same body.\<close>

definition steady :: "json \<Rightarrow> nat \<Rightarrow> time \<times> outcome" where
  "steady b i = answer 200 (Some b)"

section \<open>Rounding to a double\<close>

text \<open>The exponent is the one of the binade of \<open>x\<close>.\<close>

lemma exponent_le:
  assumes "x \<noteq> 0"
  shows "power_int 2 (exponent x) \<le> \<bar>x\<bar>"
proof (cases "\<bar>x\<bar> \<ge> 1")
  case True
  let ?m = "\<lfloor>\<bar>x\<bar>\<rfloor>"
  from True have m: "0 < ?m" by simp
  then have b: "1 \<le> bitlen ?m"
    using bitlen_eq_zero_iff [of ?m] bitlen_nonneg [of ?m] by linarith
  from bitlen_bounds [OF m] have "2 ^ nat (bitlen ?m - 1) \<le> ?m" ..
  then have "(of_int (2 ^ nat (bitlen ?m - 1)) :: rat) \<le> of_int ?m"
    by (simp only: of_int_le_iff)
  also have "\<dots> \<le> \<bar>x\<bar>" by simp
  finally have "(2 :: rat) ^ nat (bitlen ?m - 1) \<le> \<bar>x\<bar>" by simp
  with True b show ?thesis
    by (simp add: exponent_def power_int_nonneg_exp)
next
  case False
  let ?c = "\<lceil>1 / \<bar>x\<bar>\<rceil>"
  let ?b = "bitlen (?c - 1)"
  from False assms have y: "1 < 1 / \<bar>x\<bar>" by simp
  then have c: "0 < ?c - 1" by (simp add: less_ceiling_iff)
  from bitlen_bounds [OF c] have "?c - 1 < 2 ^ nat ?b" ..
  then have "?c \<le> 2 ^ nat ?b" by simp
  then have "(of_int ?c :: rat) \<le> of_int (2 ^ nat ?b)"
    by (simp only: of_int_le_iff)
  with le_of_int_ceiling [of "1 / \<bar>x\<bar>"]
  have "1 / \<bar>x\<bar> \<le> of_int (2 ^ nat ?b)"
    by (rule order_trans)
  then have "1 / \<bar>x\<bar> \<le> 2 ^ nat ?b"
    by simp
  with assms have "1 / 2 ^ nat ?b \<le> \<bar>x\<bar>"
    by (simp add: field_simps)
  moreover have "power_int (2 :: rat) (- ?b) = 1 / 2 ^ nat ?b"
    using bitlen_nonneg [of "?c - 1"]
    by (simp add: power_int_minus_divide power_int_nonneg_exp)
  ultimately show ?thesis
    using False by (simp add: exponent_def)
qed

lemma exponent_gt:
  assumes "x \<noteq> 0"
  shows "\<bar>x\<bar> < power_int 2 (exponent x + 1)"
proof (cases "\<bar>x\<bar> \<ge> 1")
  case True
  let ?m = "\<lfloor>\<bar>x\<bar>\<rfloor>"
  from True have m: "0 < ?m" by simp
  then have b: "1 \<le> bitlen ?m"
    using bitlen_eq_zero_iff [of ?m] bitlen_nonneg [of ?m] by linarith
  from bitlen_bounds [OF m] have "?m < 2 ^ nat (bitlen ?m)" ..
  then have "?m + 1 \<le> 2 ^ nat (bitlen ?m)" by simp
  then have "(of_int (?m + 1) :: rat) \<le> of_int (2 ^ nat (bitlen ?m))"
    by (simp only: of_int_le_iff)
  moreover have "\<bar>x\<bar> < of_int (?m + 1)"
    by linarith
  ultimately have "\<bar>x\<bar> < 2 ^ nat (bitlen ?m)" by simp
  with True b show ?thesis
    by (simp add: exponent_def power_int_nonneg_exp)
next
  case False
  let ?c = "\<lceil>1 / \<bar>x\<bar>\<rceil>"
  let ?b = "bitlen (?c - 1)"
  from False assms have y: "1 < 1 / \<bar>x\<bar>" by simp
  then have c: "0 < ?c - 1" by (simp add: less_ceiling_iff)
  then have b: "1 \<le> ?b"
    using bitlen_eq_zero_iff [of "?c - 1"] bitlen_nonneg [of "?c - 1"] by linarith
  from bitlen_bounds [OF c] have "2 ^ nat (?b - 1) \<le> ?c - 1" ..
  then have "(of_int (2 ^ nat (?b - 1)) :: rat) \<le> of_int (?c - 1)"
    by (simp only: of_int_le_iff)
  moreover have "of_int (?c - 1) < 1 / \<bar>x\<bar>"
    by linarith
  ultimately have "2 ^ nat (?b - 1) < 1 / \<bar>x\<bar>" by simp
  with assms have "\<bar>x\<bar> < 1 / 2 ^ nat (?b - 1)"
    by (simp add: field_simps)
  moreover have "power_int (2 :: rat) (- ?b + 1) = 1 / 2 ^ nat (?b - 1)"
  proof -
    have "- ?b + 1 = - (?b - 1)" by simp
    with b show ?thesis
      by (simp only: power_int_minus_divide) (simp add: power_int_nonneg_exp)
  qed
  ultimately show ?thesis
    using False by (simp add: exponent_def)
qed

lemma round_half_even_ge: "of_int n \<le> y \<Longrightarrow> n \<le> round_half_even y"
proof -
  assume "of_int n \<le> y"
  then have "n \<le> \<lfloor>y\<rfloor>" by (simp add: le_floor_iff)
  then show ?thesis
    by (auto simp: round_half_even_def Let_def)
qed

lemma round_half_even_le: "y \<le> of_int n \<Longrightarrow> round_half_even y \<le> n"
proof -
  assume a: "y \<le> of_int n"
  show ?thesis
  proof (cases "y = of_int n")
    case True
    then show ?thesis by (simp add: round_half_even_def)
  next
    case False
    with a have "y < of_int n" by simp
    then have "\<lfloor>y\<rfloor> < n" by (simp add: floor_less_iff)
    then have "\<lfloor>y\<rfloor> + 1 \<le> n" by simp
    then show ?thesis
      by (auto simp: round_half_even_def Let_def)
  qed
qed

lemma round_half_even_error: "\<bar>of_int (round_half_even y) - y\<bar> \<le> 1 / 2"
proof -
  have "of_int \<lfloor>y\<rfloor> \<le> y" and "y < of_int \<lfloor>y\<rfloor> + 1"
    by linarith+
  then show ?thesis
    by (auto simp: round_half_even_def Let_def abs_le_iff)
qed

lemma double_scaled_int:
  assumes "exponent x \<le> 52"
  shows "of_int n / power_int (2 :: rat) (exponent x - 52)
    = of_int (n * 2 ^ nat (52 - exponent x))"
proof -
  have "exponent x - 52 = - (52 - exponent x)" by simp
  then have "power_int (2 :: rat) (exponent x - 52) = 1 / 2 ^ nat (52 - exponent x)"
    using assms
    by (simp only: power_int_minus_divide) (simp add: power_int_nonneg_exp)
  then show ?thesis by simp
qed

lemma double_big:
  assumes "x \<noteq> 0" and "53 \<le> exponent x"
  shows "2 ^ 53 \<le> \<bar>x\<bar>"
    and "0 < x \<Longrightarrow> 2 ^ 53 \<le> double x"
    and "x < 0 \<Longrightarrow> double x \<le> - (2 ^ 53)"
proof -
  let ?e = "exponent x"
  let ?q = "power_int (2 :: rat) (?e - 52)"
  have q: "0 < ?q" by simp
  have big: "(2 :: rat) ^ 53 \<le> power_int 2 ?e"
    using power_int_increasing [of 53 ?e "2 :: rat"] assms(2) by simp
  with exponent_le [OF assms(1)] show "2 ^ 53 \<le> \<bar>x\<bar>" by simp
  have split: "power_int (2 :: rat) ?e = 2 ^ 52 * ?q"
    using power_int_add [of "2 :: rat" 52 "?e - 52"] by simp
  have dbl: "double x = of_int (round_half_even (x / ?q)) * ?q"
    using assms(1) by (simp add: double_def Let_def)
  {
    assume pos: "0 < x"
    with exponent_le [OF assms(1)] split have "2 ^ 52 * ?q \<le> x" by simp
    with q have "of_int (2 ^ 52) \<le> x / ?q"
      by (simp add: field_simps)
    then have "2 ^ 52 \<le> round_half_even (x / ?q)"
      by (rule round_half_even_ge)
    then have "(of_int (2 ^ 52) :: rat) \<le> of_int (round_half_even (x / ?q))"
      by (simp only: of_int_le_iff)
    with q have step: "of_int (2 ^ 52) * ?q \<le> of_int (round_half_even (x / ?q)) * ?q"
      by (simp only: mult_le_cancel_right_pos)
    note big
    also have "power_int 2 ?e = of_int (2 ^ 52) * ?q"
      using split by simp
    also note step
    also have "of_int (round_half_even (x / ?q)) * ?q = double x"
      by (simp only: dbl)
    finally show "2 ^ 53 \<le> double x" .
  }
  {
    assume neg: "x < 0"
    with exponent_le [OF assms(1)] split have "x \<le> - (2 ^ 52 * ?q)" by simp
    with q have "x / ?q \<le> of_int (- (2 ^ 52))"
      by (simp add: field_simps)
    then have "round_half_even (x / ?q) \<le> - (2 ^ 52)"
      by (rule round_half_even_le)
    then have "(of_int (round_half_even (x / ?q)) :: rat) \<le> of_int (- (2 ^ 52))"
      by (simp only: of_int_le_iff)
    with q have step: "of_int (round_half_even (x / ?q)) * ?q \<le> of_int (- (2 ^ 52)) * ?q"
      by (simp only: mult_le_cancel_right_pos)
    have "double x = of_int (round_half_even (x / ?q)) * ?q"
      by (simp only: dbl)
    also note step
    also have "of_int (- (2 ^ 52)) * ?q = - power_int 2 ?e"
      using split by simp
    also have "\<dots> \<le> - (2 ^ 53)"
      using big by simp
    finally show "double x \<le> - (2 ^ 53)" .
  }
qed

lemma double_ge_int:
  assumes "\<bar>n\<bar> < 2 ^ 53" and "of_int n \<le> x"
  shows "of_int n \<le> double x"
proof (cases "x = 0")
  case True
  with assms(2) show ?thesis by (simp add: double_def)
next
  case False
  let ?e = "exponent x"
  let ?q = "power_int (2 :: rat) (?e - 52)"
  have q: "0 < ?q" by simp
  have dbl: "double x = of_int (round_half_even (x / ?q)) * ?q"
    using False by (simp add: double_def Let_def)
  show ?thesis
  proof (cases "?e \<le> 52")
    case True
    let ?N = "n * 2 ^ nat (52 - ?e)"
    from assms(2) have "of_int n / ?q \<le> x / ?q"
      by (rule divide_right_mono) (simp add: less_imp_le [OF q])
    then have "of_int ?N \<le> x / ?q"
      by (simp only: double_scaled_int [OF True])
    then have "?N \<le> round_half_even (x / ?q)"
      by (rule round_half_even_ge)
    then have "(of_int ?N :: rat) \<le> of_int (round_half_even (x / ?q))"
      by (simp only: of_int_le_iff)
    with q have "of_int ?N * ?q \<le> of_int (round_half_even (x / ?q)) * ?q"
      by (simp only: mult_le_cancel_right_pos)
    moreover have "of_int ?N * ?q = of_int n"
      using double_scaled_int [OF True, of n] q by (simp add: field_simps)
    ultimately show ?thesis
      by (simp only: dbl)
  next
    case big: False
    then have e: "53 \<le> ?e" by simp
    from assms(1) have "n < 2 ^ 53" and "- (2 ^ 53) < n"
      by (simp_all add: abs_less_iff)
    then have "(of_int n :: rat) < of_int (2 ^ 53)" and "(of_int (- (2 ^ 53)) :: rat) < of_int n"
      by (simp_all only: of_int_less_iff)
    then have n: "(of_int n :: rat) < 2 ^ 53" and n': "- (2 ^ 53) < (of_int n :: rat)"
      by simp_all
    show ?thesis
    proof (cases "0 < x")
      case True
      from double_big(2) [OF False e True] n show ?thesis by simp
    next
      case neg: False
      with False have "x < 0" by simp
      with double_big(1) [OF False e] have "x \<le> - (2 ^ 53)" by simp
      with assms(2) n' show ?thesis by simp
    qed
  qed
qed

lemma double_le_int:
  assumes "\<bar>n\<bar> < 2 ^ 53" and "x \<le> of_int n"
  shows "double x \<le> of_int n"
proof (cases "x = 0")
  case True
  with assms(2) show ?thesis by (simp add: double_def)
next
  case False
  let ?e = "exponent x"
  let ?q = "power_int (2 :: rat) (?e - 52)"
  have q: "0 < ?q" by simp
  have dbl: "double x = of_int (round_half_even (x / ?q)) * ?q"
    using False by (simp add: double_def Let_def)
  show ?thesis
  proof (cases "?e \<le> 52")
    case True
    let ?N = "n * 2 ^ nat (52 - ?e)"
    from assms(2) have "x / ?q \<le> of_int n / ?q"
      by (rule divide_right_mono) (simp add: less_imp_le [OF q])
    then have "x / ?q \<le> of_int ?N"
      by (simp only: double_scaled_int [OF True])
    then have "round_half_even (x / ?q) \<le> ?N"
      by (rule round_half_even_le)
    then have "(of_int (round_half_even (x / ?q)) :: rat) \<le> of_int ?N"
      by (simp only: of_int_le_iff)
    with q have "of_int (round_half_even (x / ?q)) * ?q \<le> of_int ?N * ?q"
      by (simp only: mult_le_cancel_right_pos)
    moreover have "of_int ?N * ?q = of_int n"
      using double_scaled_int [OF True, of n] q by (simp add: field_simps)
    ultimately show ?thesis
      by (simp only: dbl)
  next
    case big: False
    then have e: "53 \<le> ?e" by simp
    from assms(1) have "n < 2 ^ 53" and "- (2 ^ 53) < n"
      by (simp_all add: abs_less_iff)
    then have "(of_int n :: rat) < of_int (2 ^ 53)" and "(of_int (- (2 ^ 53)) :: rat) < of_int n"
      by (simp_all only: of_int_less_iff)
    then have n: "(of_int n :: rat) < 2 ^ 53" and n': "- (2 ^ 53) < (of_int n :: rat)"
      by simp_all
    show ?thesis
    proof (cases "x < 0")
      case True
      from double_big(3) [OF False e True] n' show ?thesis by simp
    next
      case pos: False
      with False have "0 < x" by simp
      with double_big(1) [OF False e] have "2 ^ 53 \<le> x" by simp
      with assms(2) n show ?thesis by simp
    qed
  qed
qed

lemma double_of_int: "\<bar>n\<bar> < 2 ^ 53 \<Longrightarrow> double (of_int n) = of_int n"
  using double_ge_int [of n "of_int n"] double_le_int [of n "of_int n"] by simp

lemma double_error:
  assumes "\<bar>x\<bar> < 2 ^ 34"
  shows "\<bar>double x - x\<bar> \<le> 1 / 2 ^ 20"
proof (cases "x = 0")
  case True
  then show ?thesis by (simp add: double_def)
next
  case False
  let ?e = "exponent x"
  let ?q = "power_int (2 :: rat) (?e - 52)"
  have q: "0 < ?q" by simp
  have dbl: "double x = of_int (round_half_even (x / ?q)) * ?q"
    using False by (simp add: double_def Let_def)
  have "?e < 34"
  proof (rule ccontr)
    assume "\<not> ?e < 34"
    then have "(2 :: rat) ^ 34 \<le> power_int 2 ?e"
      using power_int_increasing [of 34 ?e "2 :: rat"] by simp
    with exponent_le [OF False] assms show False by simp
  qed
  then have "?q \<le> power_int 2 (- 19)"
    by (intro power_int_increasing) simp_all
  then have small: "?q \<le> 1 / 2 ^ 19"
    by (simp add: power_int_minus_divide)
  have "double x - x = (of_int (round_half_even (x / ?q)) - x / ?q) * ?q"
    using q by (simp add: dbl field_simps)
  then have "\<bar>double x - x\<bar> = \<bar>of_int (round_half_even (x / ?q)) - x / ?q\<bar> * ?q"
    using q by (simp add: abs_mult)
  also have "\<dots> \<le> 1 / 2 * ?q"
    using round_half_even_error [of "x / ?q"] q
    by (simp only: mult_le_cancel_right_pos)
  also have "\<dots> \<le> 1 / 2 * (1 / 2 ^ 19)"
    using small by simp
  finally show ?thesis by simp
qed

text \<open>Some doubles: a tenth, a tie above \<open>2 ^ 53\<close> that goes down and one that goes
  up to the even neighbour, and a time one microsecond below 20000000000 seconds.\<close>

lemma double_examples:
  "double (1 / 10) = 3602879701896397 / 36028797018963968
   \<and> double 9007199254740993 = 9007199254740992
   \<and> double 9007199254740995 = 9007199254740996
   \<and> double (- (5 / 2)) = - (5 / 2)
   \<and> double (19999999999999999 / 1000000) = 20000000000"
  by code_simp

text \<open>Evaluation at the numbers of the examples.\<close>

lemma double_0: "double 0 = 0"
  by (simp add: double_def)

lemma double_numeral: "numeral k < (2 :: int) ^ 53 \<Longrightarrow> double (numeral k) = numeral k"
  using double_of_int [of "numeral k"] by simp

lemma py_num_sub_60: "py_num v = Some e \<Longrightarrow> \<exists>k. py_sub_60 v = Inr k"
  by (cases v) simp_all

section \<open>Unfolding the model\<close>

lemmas is_expired_eval = is_expired_def total_seconds_def double_0 double_numeral

lemmas env_defs = logging_def print_def time_sleep_def webbrowser_open_def uuid4_str_def
  send_def requests_get_def requests_post_def

lemmas bot_defs = authenticate_session_def token_request_data_def new_Token_def
  check_token_expiration_def post_comment_def delete_comment_def fmt_token_def Token_str_def
  is_expired_eval refresh_def encode_ascii_def authorize_application_def
  COMMON_API_URI_def OAUTH_API_URI_def REDIRECT_URI_def USER_AGENT_def

lemmas example_defs = lib0_def script_def answer_def world0_def token0_def bot0_def bot1_def
  steady_def

section \<open>Token: expiry and refresh\<close>

lemma is_expired_int:
  "expires_in t = JInt E \<Longrightarrow>
   is_expired t now = Inr (of_int E - 60 \<le> double (now - issued_at t))"
  by (simp add: is_expired_def total_seconds_def)

text \<open>On the microsecond grid and below \<open>2 ^ 34\<close> seconds in size, a double is nearer
  to the time it stands for than a microsecond, so the comparison with a whole number
  of seconds is the exact one.\<close>

lemma double_ge_iff_microseconds:
  assumes "- (2 ^ 34) < k" and "k \<le> 2 ^ 34"
  shows "of_int k \<le> double (of_int us / 1000000) \<longleftrightarrow> of_int k \<le> (of_int us / 1000000 :: rat)"
proof -
  let ?x = "of_int us / 1000000 :: rat"
  from assms have k53: "\<bar>k\<bar> < 2 ^ 53" and k53': "\<bar>k - 1\<bar> < 2 ^ 53"
    by simp_all
  show ?thesis
  proof (cases "of_int k \<le> ?x")
    case True
    with double_ge_int [OF k53, of ?x] show ?thesis by simp
  next
    case False
    then have "?x < of_int k" by simp
    then have "(of_int us :: rat) < of_int (k * 1000000)" by (simp add: field_simps)
    then have "us < k * 1000000" by (simp only: of_int_less_iff)
    then have "us \<le> k * 1000000 - 1" by simp
    then have "(of_int us :: rat) \<le> of_int (k * 1000000 - 1)" by (simp only: of_int_le_iff)
    then have gap: "?x \<le> of_int k - 1 / 1000000" by (simp add: field_simps)
    have "double ?x < of_int k"
    proof (cases "?x \<le> of_int (k - 1)")
      case True
      with double_le_int [OF k53', of ?x] have "double ?x \<le> of_int (k - 1)" by simp
      then show ?thesis by simp
    next
      case near: False
      then have lo: "of_int k - 1 < ?x" by simp
      from assms have "(of_int k :: rat) \<le> of_int (2 ^ 34)" and "(of_int (- (2 ^ 34)) :: rat) \<le> of_int (k - 1)"
        by (simp_all only: of_int_le_iff)
      then have "(of_int k :: rat) \<le> 2 ^ 34" and "- (2 ^ 34) \<le> (of_int k :: rat) - 1"
        by simp_all
      with lo \<open>?x < of_int k\<close> have "\<bar>?x\<bar> < 2 ^ 34" by (simp add: abs_less_iff)
      then have "\<bar>double ?x - ?x\<bar> \<le> 1 / 2 ^ 20" by (rule double_error)
      with abs_ge_self [of "double ?x - ?x"] have "double ?x - ?x \<le> 1 / 2 ^ 20"
        by (rule order_trans)
      then have "double ?x \<le> ?x + 1 / 2 ^ 20" by linarith
      also have "\<dots> < ?x + 1 / 1000000" by simp
      also from gap have "\<dots> \<le> of_int k" by simp
      finally show ?thesis .
    qed
    with False show ?thesis by simp
  qed
qed

text \<open>Python: \<^verbatim>\<open>3600.3 - 60\<close> is a float subtraction, and at 3540.3 seconds the token
  with that float as \<open>expires_in\<close> is expired.\<close>

lemma is_expired_float_example:
  "is_expired (token0\<lparr>expires_in := JFloat (double (36003 / 10))\<rparr>) (35403 / 10) = Inr True"
  by code_simp

text \<open>
  C1, amended. For a token with integer expiry duration \<open>E\<close> seconds and issuance
  timestamp \<open>T\<close>, \<open>is_expired\<close> is true exactly when \<^verbatim>\<open>total_seconds()\<close>, the elapsed
  time since \<open>T\<close> rounded to a double, is at least \<open>E - 60\<close>. For \<open>E - 61\<close> and
  \<open>E - 60\<close> below \<open>2 ^ 53\<close> in size it is false at \<open>T + (E - 61)\<close> and true at
  \<open>T + (E - 60)\<close>, and true whenever the elapsed time is at least \<open>E - 60\<close>. For
  \<open>E - 60\<close> above \<open>- 2 ^ 34\<close> and at most \<open>2 ^ 34\<close> (some 544 years) and an elapsed
  time that is a whole number of microseconds, it is true exactly when the elapsed
  time is at least \<open>E - 60\<close>. It returns a truth value only: the token it was asked
  about is the same value afterwards.
\<close>

theorem is_expired_boundary:
  assumes "expires_in t = JInt E"
  shows "is_expired t now = Inr (of_int E - 60 \<le> total_seconds (now - issued_at t))
    \<and> (\<bar>E - 61\<bar> < 2 ^ 53 \<and> \<bar>E - 60\<bar> < 2 ^ 53 \<longrightarrow>
         is_expired t (issued_at t + (of_int E - 61)) = Inr False
       \<and> is_expired t (issued_at t + (of_int E - 60)) = Inr True)
    \<and> (\<bar>E - 60\<bar> < 2 ^ 53 \<and> of_int E - 60 \<le> now - issued_at t \<longrightarrow>
         is_expired t now = Inr True)
    \<and> (- (2 ^ 34) < E - 60 \<and> E - 60 \<le> 2 ^ 34 \<longrightarrow>
         is_expired t (issued_at t + of_int us / 1000000)
           = Inr (of_int E - 60 \<le> (of_int us / 1000000 :: rat)))"
proof (intro conjI impI)
  show "is_expired t now = Inr (of_int E - 60 \<le> total_seconds (now - issued_at t))"
    using assms by (simp add: is_expired_def)
next
  assume b: "\<bar>E - 61\<bar> < 2 ^ 53 \<and> \<bar>E - 60\<bar> < 2 ^ 53"
  then have "double (of_int (E - 61)) = of_int (E - 61)"
    by (intro double_of_int) simp
  then show "is_expired t (issued_at t + (of_int E - 61)) = Inr False"
    using assms by (simp add: is_expired_int)
  from b have "double (of_int (E - 60)) = of_int (E - 60)"
    by (intro double_of_int) simp
  then show "is_expired t (issued_at t + (of_int E - 60)) = Inr True"
    using assms by (simp add: is_expired_int)
next
  assume c: "\<bar>E - 60\<bar> < 2 ^ 53 \<and> of_int E - 60 \<le> now - issued_at t"
  then have "of_int (E - 60) \<le> double (now - issued_at t)"
    by (intro double_ge_int) simp_all
  then show "is_expired t now = Inr True"
    using assms by (simp add: is_expired_int)
next
  assume d: "- (2 ^ 34) < E - 60 \<and> E - 60 \<le> 2 ^ 34"
  then have "of_int (E - 60) \<le> double (of_int us / 1000000)
      \<longleftrightarrow> of_int (E - 60) \<le> (of_int us / 1000000 :: rat)"
    by (intro double_ge_iff_microseconds) simp_all
  then show "is_expired t (issued_at t + of_int us / 1000000)
           = Inr (of_int E - 60 \<le> (of_int us / 1000000 :: rat))"
    using assms by (simp add: is_expired_int)
qed

text \<open>A token issued at second 1000 for 3600 seconds: not expired at 4539, expired at
  4540 and at 5000, not expired one microsecond before 4540.\<close>

theorem is_expired_boundary_witness:
  "is_expired (token0\<lparr>issued_at := 1000\<rparr>) 4539 = Inr False
   \<and> is_expired (token0\<lparr>issued_at := 1000\<rparr>) 4540 = Inr True
   \<and> is_expired (token0\<lparr>issued_at := 1000\<rparr>) 5000 = Inr True
   \<and> is_expired (token0\<lparr>issued_at := 1000\<rparr>) (1000 + 3539999999 / 1000000) = Inr False"
  using is_expired_boundary [of "token0\<lparr>issued_at := 1000\<rparr>" 3600 5000 3539999999]
  by (simp add: token0_def total_seconds_def double_numeral)

text \<open>
  C1 as stated fails: the token is issued for 20000000060 seconds, and one
  microsecond before 20000000000 seconds have elapsed \<^verbatim>\<open>total_seconds()\<close> is
  20000000000.0, so that \<open>is_expired\<close> is true while the elapsed time is below
  \<open>E - 60\<close>.
\<close>

theorem is_expired_rounding_counterexample:
  "is_expired (token0\<lparr>expires_in := JInt 20000000060\<rparr>) (19999999999999999 / 1000000)
     = Inr True
   \<and> (19999999999999999 / 1000000 :: rat) - issued_at (token0\<lparr>expires_in := JInt 20000000060\<rparr>)
     < of_int 20000000060 - 60"
proof -
  have "double (19999999999999999 / 1000000) = 20000000000"
    by code_simp
  then show ?thesis
    by (simp add: is_expired_def total_seconds_def token0_def)
qed

text \<open>
  C2. For a response object that holds \<open>access_token\<close>, \<open>expires_in\<close> and \<open>scope\<close>,
  \<open>refresh\<close> returns normally and the token afterwards is the token before with exactly
  these three fields replaced by the response's values and \<open>issued_at\<close> set to the
  current time; \<open>refresh_token\<close> and \<open>token_type\<close> are as before.
\<close>

theorem refresh_frame:
  assumes "map_of kvs ''access_token'' = Some a"
    and "map_of kvs ''expires_in'' = Some x"
    and "map_of kvs ''scope'' = Some s"
  shows "refresh t (JObj kvs) now =
      (Inr (), t\<lparr>access_token := a, expires_in := x, scope := s, issued_at := now\<rparr>)
    \<and> refresh_token (snd (refresh t (JObj kvs) now)) = refresh_token t
    \<and> token_type (snd (refresh t (JObj kvs) now)) = token_type t"
  using assms by (simp add: refresh_def)

theorem refresh_frame_witness:
  "refresh token0
     (JObj [(''access_token'', JStr ''B''), (''token_type'', JStr ''bearer''),
            (''expires_in'', JInt 86400), (''scope'', JStr ''edit'')]) 5000
   = (Inr (), \<lparr>access_token = JStr ''B'', expires_in = JInt 86400, scope = JStr ''edit'',
      refresh_token = JStr ''R'', token_type = ''bearer'', issued_at = 5000\<rparr>)"
  using refresh_frame [of "[(''access_token'', JStr ''B''), (''token_type'', JStr ''bearer''),
            (''expires_in'', JInt 86400), (''scope'', JStr ''edit'')]" "JStr ''B''" "JInt 86400"
      "JStr ''edit''" token0 5000]
  by (simp add: token0_def)

section \<open>Authorization\<close>

text \<open>
  C6. When the authorize endpoint answers, \<open>authorize_application\<close> returns true if
  the status is 200 and false otherwise, without raising. Its effects are one log
  line, the GET request with the query parameters \<open>client_id\<close>, \<open>response_type=code\<close>,
  \<open>state\<close> (the next identifier that \<open>uuid4\<close> draws, which no later call draws
  again), the fixed \<open>redirect_uri\<close>, \<open>duration=permanent\<close> and \<open>scope=edit submit\<close>,
  and, on status 200 only, the browser opened at the response's URL.
\<close>

theorem authorize_application_result:
  assumes "network w (requests_made w) = (d, Answer r)"
  shows "fst (authorize_application self w) = Inr (status_code r = 200)
    \<and> trace (snd (authorize_application self w)) =
        trace w @
        [Log INFO ''Authorizing application...'',
         Get (COMMON_API_URI @ ''/authorize'')
           [(''client_id'', client_id self), (''response_type'', ''code''),
            (''state'', uuid4 w (uuid4_calls w)), (''redirect_uri'', REDIRECT_URI),
            (''duration'', ''permanent''), (''scope'', ''edit submit'')]
           [(''User-Agent'', USER_AGENT)]] @
        (if status_code r = 200 then [BrowserOpen (url r) 2] else [])
    \<and> uuid4_calls (snd (authorize_application self w)) = Suc (uuid4_calls w)"
  using assms
  by (simp add: authorize_application_def requests_get_def uuid4_str_def
      send_def logging_def webbrowser_open_def Let_def)

text \<open>Status 200 and status 403.\<close>

theorem authorize_application_result_witness:
  "fst (authorize_application bot0 (world0 (script [answer 200 None]))) = Inr True
   \<and> BrowserOpen ''https://www.reddit.com/'' 2
       \<in> set (trace (snd (authorize_application bot0 (world0 (script [answer 200 None])))))
   \<and> fst (authorize_application bot0 (world0 (script [answer 403 None]))) = Inr False
   \<and> trace (snd (authorize_application bot0 (world0 (script [answer 403 None])))) =
        [Log INFO ''Authorizing application...'',
         Get ''https://www.reddit.com/api/v1/authorize''
           [(''client_id'', ''id''), (''response_type'', ''code''), (''state'', ''uuid''),
            (''redirect_uri'', ''https://www.reddit.com/r/PokemonGoFriends''),
            (''duration'', ''permanent''), (''scope'', ''edit submit'')]
           [(''User-Agent'', USER_AGENT)]]"
  using authorize_application_result [of "world0 (script [answer 200 None])" 1
      "\<lparr>status_code = 200, url = ''https://www.reddit.com/'', body = None\<rparr>" bot0]
    authorize_application_result [of "world0 (script [answer 403 None])" 1
      "\<lparr>status_code = 403, url = ''https://www.reddit.com/'', body = None\<rparr>" bot0]
  by (simp add: example_defs COMMON_API_URI_def REDIRECT_URI_def)

section \<open>The token request\<close>

text \<open>The first-time exchange that succeeds, with everything it does.\<close>

lemma authenticate_session_first_time:
  assumes "encode_ascii (client_id self @ '':'' @ client_secret self) = Inr cred"
    and "network w (requests_made w) = (d, Answer r)"
    and "status_code r = 200" and "body r = Some (JObj kvs)"
    and "map_of kvs ''access_token'' = Some a"
    and "map_of kvs ''expires_in'' = Some x" and "py_int L x = Inr n"
    and "map_of kvs ''scope'' = Some s"
    and "map_of kvs ''refresh_token'' = Some rt"
  shows "authenticate_session L self code False w =
     (Inr True,
      self\<lparr>token := Some \<lparr>access_token = a, expires_in = JInt n, scope = s,
                refresh_token = rt, token_type = ''bearer'',
                issued_at = Token_issued_at_default w\<rparr>\<rparr>,
      w\<lparr>clock := clock w + d, requests_made := Suc (requests_made w),
        trace := trace w @
          [Log INFO ''Initializing session...'',
           Post (COMMON_API_URI @ ''/access_token'')
             [(''Authorization'', ''Basic '' @ b64encode L cred), (''User-Agent'', USER_AGENT)]
             [(''grant_type'', JStr ''authorization_code''),
              (''code'', case code of None \<Rightarrow> JNull | Some c \<Rightarrow> JStr c),
              (''redirect_uri'', JStr REDIRECT_URI)],
           Print ''> Successfully obtained authentication token.'']\<rparr>)"
  using assms
  by (simp add: authenticate_session_def token_request_data_def requests_post_def send_def
      logging_def print_def new_Token_def Let_def)

lemma new_Token_missing:
  assumes "k \<in> set [''access_token'', ''expires_in'', ''scope'', ''refresh_token'']"
    and "map_of kvs k = None"
  shows "\<exists>e. new_Token L (JObj kvs) w = Inl e"
  using assms by (auto simp: new_Token_def split: sum.splits option.splits)

text \<open>What no operation of the controller touches.\<close>

lemma authenticate_session_fullname:
  "last_comment_fullname (fst (snd (authenticate_session L self code is_refresh w)))
     = last_comment_fullname self"
  by (simp add: authenticate_session_def Let_def split: sum.splits prod.splits option.splits)

lemma authenticate_session_default:
  "Token_issued_at_default (snd (snd (authenticate_session L self code is_refresh w)))
     = Token_issued_at_default w"
  by (cases "network w (requests_made w)")
    (auto simp: authenticate_session_def requests_post_def send_def logging_def print_def
      Let_def split: outcome.splits option.splits sum.splits prod.splits)

lemma authenticate_session_no_del:
  "filter is_del (trace (snd (snd (authenticate_session L self code is_refresh w))))
     = filter is_del (trace w)"
  by (cases "network w (requests_made w)")
    (auto simp: authenticate_session_def requests_post_def send_def logging_def print_def
      Let_def COMMON_API_URI_def OAUTH_API_URI_def
      split: outcome.splits option.splits sum.splits prod.splits)

lemma refresh_request_sent:
  assumes "token self = Some t"
    and "encode_ascii (client_id self @ '':'' @ client_secret self) = Inr cred"
  shows "Post (COMMON_API_URI @ ''/access_token'')
           [(''Authorization'', ''Basic '' @ b64encode L cred), (''User-Agent'', USER_AGENT)]
           [(''grant_type'', JStr ''refresh_token''), (''refresh_token'', refresh_token t)]
         \<in> set (trace (snd (snd (authenticate_session L self None True w))))"
  using assms
  by (cases "network w (requests_made w)")
    (auto simp: authenticate_session_def token_request_data_def requests_post_def send_def
      logging_def print_def Let_def split: outcome.splits option.splits sum.splits prod.splits)

text \<open>
  C4. When the access-token endpoint answers the first-time exchange with status 200
  and a body that does not parse as JSON, or with any status other than 200,
  \<open>authenticate_session\<close> returns false and the controller is as before: a token that
  was unset is still unset. The same holds for a refresh when there is a token.
\<close>

theorem authenticate_session_failure:
  assumes "encode_ascii (client_id self @ '':'' @ client_secret self) = Inr cred"
    and "is_refresh \<longrightarrow> token self \<noteq> None"
    and "network w (requests_made w) = (d, Answer r)"
    and "status_code r \<noteq> 200 \<or> body r = None"
  shows "fst (authenticate_session L self code is_refresh w) = Inr False
    \<and> fst (snd (authenticate_session L self code is_refresh w)) = self"
  using assms
  by (auto simp: authenticate_session_def token_request_data_def requests_post_def
      send_def logging_def Let_def split: option.splits)

text \<open>Status 200 with a body that is not JSON, and status 401 with a JSON body.\<close>

theorem authenticate_session_failure_witness:
  "fst (authenticate_session lib0 bot0 (Some ''c'') False (world0 (script [answer 200 None])))
     = Inr False
   \<and> token (fst (snd (authenticate_session lib0 bot0 (Some ''c'') False
        (world0 (script [answer 200 None]))))) = None
   \<and> fst (authenticate_session lib0 bot0 (Some ''c'') False
        (world0 (script [answer 401 (Some (JObj [(''error'', JInt 401)]))]))) = Inr False
   \<and> token (fst (snd (authenticate_session lib0 bot0 (Some ''c'') False
        (world0 (script [answer 401 (Some (JObj [(''error'', JInt 401)]))]))))) = None"
  using authenticate_session_failure [of bot0 "''id:secret''" False
      "world0 (script [answer 200 None])" 1
      "\<lparr>status_code = 200, url = ''https://www.reddit.com/'', body = None\<rparr>"
      lib0 "Some ''c''"]
    authenticate_session_failure [of bot0 "''id:secret''" False
      "world0 (script [answer 401 (Some (JObj [(''error'', JInt 401)]))])" 1
      "\<lparr>status_code = 401, url = ''https://www.reddit.com/'',
        body = Some (JObj [(''error'', JInt 401)])\<rparr>"
      lib0 "Some ''c''"]
  by (simp add: encode_ascii_def example_defs)

text \<open>The request of \<open>post_comment\<close> and of \<open>delete_comment\<close>, once the expiry check
  has returned.\<close>

lemma post_comment_request:
  assumes "check_token_expiration L self w = (Inr (), self1, w1)"
  shows "Post (OAUTH_API_URI @ ''/comment'')
           [(''Authorization'', fmt_token L (token self1)), (''User-Agent'', USER_AGENT)]
           [(''api_type'', JStr ''json''), (''return_rtjson'', JBool True),
            (''text'', JStr (message self1)), (''thing_id'', JStr ''t3_so87rb'')]
         \<in> set (trace (snd (snd (post_comment L self w))))"
  using assms
  by (cases "network w1 (requests_made w1)")
    (auto simp: post_comment_def requests_post_def send_def logging_def print_def Let_def
      split: outcome.splits option.splits sum.splits)

lemma delete_comment_request:
  assumes "check_token_expiration L self w = (Inr (), self1, w1)"
  shows "Post (OAUTH_API_URI @ ''/del'')
           [(''Authorization'', fmt_token L (token self1)), (''User-Agent'', USER_AGENT)]
           [(''id'', last_comment_fullname self1)]
         \<in> set (trace (snd (snd (delete_comment L self w))))"
  using assms
  by (cases "network w1 (requests_made w1)")
    (auto simp: delete_comment_def requests_post_def send_def logging_def print_def Let_def
      split: outcome.splits option.splits sum.splits)

lemma check_token_expiration_fresh:
  "is_expired token0 (clock (world0 net)) = Inr False
   \<and> check_token_expiration lib0 bot1 (world0 net) = (Inr (), bot1, world0 net)"
  by (simp add: check_token_expiration_def is_expired_eval example_defs)

text \<open>
  C7. The string rendering of a token is its \<open>token_type\<close>, a space and its
  \<open>access_token\<close>. It is the value that \<open>post_comment\<close> and \<open>delete_comment\<close> send as
  \<open>Authorization\<close> header. After a first-time \<open>authenticate_session\<close> that is answered
  with status 200 and an object with the four fields, where \<open>access_token\<close> is the
  string \<open>A\<close>, the call has returned true and the header renders as \<open>bearer A\<close>.
\<close>

theorem Token_str_authorization:
  "Token_str L t =
     token_type t @ '' '' @ (case access_token t of JStr a \<Rightarrow> a | v \<Rightarrow> str_of L v)
   \<and> (check_token_expiration L self0 w0 = (Inr (), self1, w1) \<and> token self1 = Some t1
      \<longrightarrow> Post (OAUTH_API_URI @ ''/comment'')
            [(''Authorization'', Token_str L t1), (''User-Agent'', USER_AGENT)]
            [(''api_type'', JStr ''json''), (''return_rtjson'', JBool True),
             (''text'', JStr (message self1)), (''thing_id'', JStr ''t3_so87rb'')]
          \<in> set (trace (snd (snd (post_comment L self0 w0))))
        \<and> Post (OAUTH_API_URI @ ''/del'')
            [(''Authorization'', Token_str L t1), (''User-Agent'', USER_AGENT)]
            [(''id'', last_comment_fullname self1)]
          \<in> set (trace (snd (snd (delete_comment L self0 w0)))))
   \<and> (encode_ascii (client_id self @ '':'' @ client_secret self) = Inr cred
      \<and> network w (requests_made w) = (d, Answer r)
      \<and> status_code r = 200 \<and> body r = Some (JObj kvs)
      \<and> map_of kvs ''access_token'' = Some (JStr A)
      \<and> map_of kvs ''expires_in'' = Some x \<and> py_int L x = Inr n
      \<and> map_of kvs ''scope'' = Some s
      \<and> map_of kvs ''refresh_token'' = Some rt
    \<longrightarrow> fst (authenticate_session L self code False w) = Inr True
        \<and> fmt_token L (token (fst (snd (authenticate_session L self code False w))))
            = ''bearer '' @ A)"
proof (intro conjI impI)
  show "Token_str L t =
     token_type t @ '' '' @ (case access_token t of JStr a \<Rightarrow> a | v \<Rightarrow> str_of L v)"
    by (cases "access_token t") (simp_all add: Token_str_def)
next
  assume a: "check_token_expiration L self0 w0 = (Inr (), self1, w1) \<and> token self1 = Some t1"
  then have f: "fmt_token L (token self1) = Token_str L t1"
    by (simp add: fmt_token_def)
  from a post_comment_request [of L self0 w0 self1 w1] f
  show "Post (OAUTH_API_URI @ ''/comment'')
            [(''Authorization'', Token_str L t1), (''User-Agent'', USER_AGENT)]
            [(''api_type'', JStr ''json''), (''return_rtjson'', JBool True),
             (''text'', JStr (message self1)), (''thing_id'', JStr ''t3_so87rb'')]
          \<in> set (trace (snd (snd (post_comment L self0 w0))))"
    by simp
  from a delete_comment_request [of L self0 w0 self1 w1] f
  show "Post (OAUTH_API_URI @ ''/del'')
            [(''Authorization'', Token_str L t1), (''User-Agent'', USER_AGENT)]
            [(''id'', last_comment_fullname self1)]
          \<in> set (trace (snd (snd (delete_comment L self0 w0))))"
    by simp
next
  assume b: "encode_ascii (client_id self @ '':'' @ client_secret self) = Inr cred
      \<and> network w (requests_made w) = (d, Answer r)
      \<and> status_code r = 200 \<and> body r = Some (JObj kvs)
      \<and> map_of kvs ''access_token'' = Some (JStr A)
      \<and> map_of kvs ''expires_in'' = Some x \<and> py_int L x = Inr n
      \<and> map_of kvs ''scope'' = Some s
      \<and> map_of kvs ''refresh_token'' = Some rt"
  then have eq: "authenticate_session L self code False w =
     (Inr True,
      self\<lparr>token := Some \<lparr>access_token = JStr A, expires_in = JInt n, scope = s,
                refresh_token = rt, token_type = ''bearer'',
                issued_at = Token_issued_at_default w\<rparr>\<rparr>,
      w\<lparr>clock := clock w + d, requests_made := Suc (requests_made w),
        trace := trace w @
          [Log INFO ''Initializing session...'',
           Post (COMMON_API_URI @ ''/access_token'')
             [(''Authorization'', ''Basic '' @ b64encode L cred), (''User-Agent'', USER_AGENT)]
             [(''grant_type'', JStr ''authorization_code''),
              (''code'', case code of None \<Rightarrow> JNull | Some c \<Rightarrow> JStr c),
              (''redirect_uri'', JStr REDIRECT_URI)],
           Print ''> Successfully obtained authentication token.'']\<rparr>)"
    using authenticate_session_first_time [of self cred w d r kvs "JStr A" x L n s rt code]
    by simp
  show "fst (authenticate_session L self code False w) = Inr True"
    by (simp add: eq)
  show "fmt_token L (token (fst (snd (authenticate_session L self code False w))))
            = ''bearer '' @ A"
    by (simp add: eq fmt_token_def Token_str_def)
qed

text \<open>The exchange of the specification's example, and a comment posted with the
  token \<open>A\<close>.\<close>

theorem Token_str_authorization_witness:
  "fst (authenticate_session lib0 bot0 (Some ''c'') False
      (world0 (script [answer 200 (Some (JObj [(''access_token'', JStr ''A''),
         (''expires_in'', JInt 3600), (''scope'', JStr ''edit submit''),
         (''refresh_token'', JStr ''R'')]))]))) = Inr True
   \<and> fmt_token lib0 (token (fst (snd (authenticate_session lib0 bot0 (Some ''c'') False
      (world0 (script [answer 200 (Some (JObj [(''access_token'', JStr ''A''),
         (''expires_in'', JInt 3600), (''scope'', JStr ''edit submit''),
         (''refresh_token'', JStr ''R'')]))])))))) = ''bearer A''
   \<and> Post ''https://oauth.reddit.com/api/comment''
        [(''Authorization'', ''bearer A''), (''User-Agent'', USER_AGENT)]
        [(''api_type'', JStr ''json''), (''return_rtjson'', JBool True),
         (''text'', JStr ''hello''), (''thing_id'', JStr ''t3_so87rb'')]
      \<in> set (trace (snd (snd (post_comment lib0 bot1 (world0 (script []))))))"
  using Token_str_authorization [of lib0 token0 bot1 "world0 (script [])" bot1
      "world0 (script [])" token0 bot0 "''id:secret''"
      "world0 (script [answer 200 (Some (JObj [(''access_token'', JStr ''A''),
         (''expires_in'', JInt 3600), (''scope'', JStr ''edit submit''),
         (''refresh_token'', JStr ''R'')]))])" 1
      "\<lparr>status_code = 200, url = ''https://www.reddit.com/'',
        body = Some (JObj [(''access_token'', JStr ''A''),
         (''expires_in'', JInt 3600), (''scope'', JStr ''edit submit''),
         (''refresh_token'', JStr ''R'')])\<rparr>"
      "[(''access_token'', JStr ''A''),
         (''expires_in'', JInt 3600), (''scope'', JStr ''edit submit''),
         (''refresh_token'', JStr ''R'')]" "''A''" "JInt 3600" 3600 "JStr ''edit submit''"
      "JStr ''R''" "Some ''c''"]
    check_token_expiration_fresh [of "script []"]
  by (simp add: encode_ascii_def example_defs Token_str_def OAUTH_API_URI_def)

text \<open>
  C9. A first-time exchange that succeeds builds its token without an \<open>issued_at\<close>
  argument, and the token's \<open>issued_at\<close> is the default of the class, whatever the
  clock shows at the exchange. The exchange leaves that default as it is, so every
  token built this way has the same \<open>issued_at\<close>; the default is the clock at the
  moment the class statement ran.
\<close>

theorem issued_at_is_class_default:
  assumes "encode_ascii (client_id self @ '':'' @ client_secret self) = Inr cred"
    and "network w (requests_made w) = (d, Answer r)"
    and "status_code r = 200" and "body r = Some (JObj kvs)"
    and "map_of kvs ''access_token'' = Some a"
    and "map_of kvs ''expires_in'' = Some x" and "py_int L x = Inr n"
    and "map_of kvs ''scope'' = Some s"
    and "map_of kvs ''refresh_token'' = Some rt"
  shows "(\<exists>t. token (fst (snd (authenticate_session L self code False w))) = Some t
      \<and> issued_at t = Token_issued_at_default w)
    \<and> Token_issued_at_default (snd (snd (authenticate_session L self code False w)))
      = Token_issued_at_default w
    \<and> Token_issued_at_default (define_Token w0) = clock w0"
  using authenticate_session_first_time [OF assms, of code]
  by (simp add: define_Token_def)

text \<open>The class is defined at second 0 and the exchange is answered at second 5001:
  the token is issued at second 0.\<close>

theorem issued_at_is_class_default_witness:
  "Token_issued_at_default (define_Token (world0 (script []))) = 0
   \<and> clock (snd (snd (authenticate_session lib0 bot0 (Some ''c'') False
      (time_sleep 5000 (define_Token (world0 (script [answer 200 (Some (JObj
         [(''access_token'', JStr ''A''), (''expires_in'', JInt 3600),
          (''scope'', JStr ''edit submit''), (''refresh_token'', JStr ''R'')]))]))))))) = 5001
   \<and> (\<exists>t. token (fst (snd (authenticate_session lib0 bot0 (Some ''c'') False
      (time_sleep 5000 (define_Token (world0 (script [answer 200 (Some (JObj
         [(''access_token'', JStr ''A''), (''expires_in'', JInt 3600),
          (''scope'', JStr ''edit submit''), (''refresh_token'', JStr ''R'')]))]))))))) = Some t
        \<and> issued_at t = 0)"
  using issued_at_is_class_default [of bot0 "''id:secret''"
      "time_sleep 5000 (define_Token (world0 (script [answer 200 (Some (JObj
         [(''access_token'', JStr ''A''), (''expires_in'', JInt 3600),
          (''scope'', JStr ''edit submit''), (''refresh_token'', JStr ''R'')]))])))" 1
      "\<lparr>status_code = 200, url = ''https://www.reddit.com/'',
        body = Some (JObj [(''access_token'', JStr ''A''),
         (''expires_in'', JInt 3600), (''scope'', JStr ''edit submit''),
         (''refresh_token'', JStr ''R'')])\<rparr>"
      "[(''access_token'', JStr ''A''),
         (''expires_in'', JInt 3600), (''scope'', JStr ''edit submit''),
         (''refresh_token'', JStr ''R'')]" "JStr ''A''" "JInt 3600" lib0 3600
      "JStr ''edit submit''" "JStr ''R''" "Some ''c''" "world0 (script [])"]
    authenticate_session_first_time [of bot0 "''id:secret''"
      "time_sleep 5000 (define_Token (world0 (script [answer 200 (Some (JObj
         [(''access_token'', JStr ''A''), (''expires_in'', JInt 3600),
          (''scope'', JStr ''edit submit''), (''refresh_token'', JStr ''R'')]))])))" 1
      "\<lparr>status_code = 200, url = ''https://www.reddit.com/'',
        body = Some (JObj [(''access_token'', JStr ''A''),
         (''expires_in'', JInt 3600), (''scope'', JStr ''edit submit''),
         (''refresh_token'', JStr ''R'')])\<rparr>"
      "[(''access_token'', JStr ''A''),
         (''expires_in'', JInt 3600), (''scope'', JStr ''edit submit''),
         (''refresh_token'', JStr ''R'')]" "JStr ''A''" "JInt 3600" lib0 3600
      "JStr ''edit submit''" "JStr ''R''" "Some ''c''"]
  by (simp add: encode_ascii_def example_defs define_Token_def time_sleep_def)

section \<open>The expiry check\<close>

lemma check_token_expiration_fullname:
  "last_comment_fullname (fst (snd (check_token_expiration L self w)))
     = last_comment_fullname self"
proof (cases "authenticate_session L self None True w")
  case (fields res self' w')
  with authenticate_session_fullname [of L self None True w]
  have "last_comment_fullname self' = last_comment_fullname self" by simp
  with fields show ?thesis
    by (simp add: check_token_expiration_def split: sum.splits option.splits)
qed

lemma check_token_expiration_default:
  "Token_issued_at_default (snd (snd (check_token_expiration L self w)))
     = Token_issued_at_default w"
proof (cases "authenticate_session L self None True w")
  case (fields res self' w')
  with authenticate_session_default [of L self None True w]
  have "Token_issued_at_default w' = Token_issued_at_default w" by simp
  with fields show ?thesis
    by (simp add: check_token_expiration_def split: sum.splits option.splits)
qed

lemma check_token_expiration_no_del:
  "filter is_del (trace (snd (snd (check_token_expiration L self w))))
     = filter is_del (trace w)"
proof (cases "authenticate_session L self None True w")
  case (fields res self' w')
  with authenticate_session_no_del [of L self None True w]
  have "filter is_del (trace w') = filter is_del (trace w)" by simp
  with fields show ?thesis
    by (simp add: check_token_expiration_def split: sum.splits option.splits)
qed

text \<open>
  C8, amended. With a token whose \<open>is_expired\<close> has a truth value:
  if it is false, \<open>check_token_expiration\<close> changes nothing and sends nothing; if it is
  true, it calls \<open>authenticate_session\<close> with \<open>is_refresh\<close> set, so that the refresh
  request is sent. Whenever that call returns, with true or with false,
  \<open>check_token_expiration\<close> returns normally and drops the truth value; an exception of
  that call is passed on. In particular a refresh answered with a status other than 200
  or with a body that is not JSON returns false, and \<open>check_token_expiration\<close> returns
  normally with the controller as before, the expired token included.
\<close>

theorem check_token_expiration_refresh:
  assumes tok: "token self = Some t"
    and exp: "is_expired t (clock w) = Inr expired"
  shows "(\<not> expired \<longrightarrow> check_token_expiration L self w = (Inr (), self, w))
    \<and> (expired \<longrightarrow>
         (\<forall>ok self' w'. authenticate_session L self None True w = (Inr ok, self', w') \<longrightarrow>
            check_token_expiration L self w = (Inr (), self', w'))
       \<and> (\<forall>e self' w'. authenticate_session L self None True w = (Inl e, self', w') \<longrightarrow>
            check_token_expiration L self w = (Inl e, self', w')))
    \<and> (expired \<and> encode_ascii (client_id self @ '':'' @ client_secret self) = Inr cred \<longrightarrow>
         Post (COMMON_API_URI @ ''/access_token'')
           [(''Authorization'', ''Basic '' @ b64encode L cred), (''User-Agent'', USER_AGENT)]
           [(''grant_type'', JStr ''refresh_token''), (''refresh_token'', refresh_token t)]
         \<in> set (trace (snd (snd (check_token_expiration L self w)))))
    \<and> (expired \<and> encode_ascii (client_id self @ '':'' @ client_secret self) = Inr cred
         \<and> network w (requests_made w) = (d, Answer r)
         \<and> (status_code r \<noteq> 200 \<or> body r = None) \<longrightarrow>
         fst (authenticate_session L self None True w) = Inr False
       \<and> fst (check_token_expiration L self w) = Inr ()
       \<and> fst (snd (check_token_expiration L self w)) = self)"
proof (intro conjI impI allI)
  assume "\<not> expired"
  with tok exp show "check_token_expiration L self w = (Inr (), self, w)"
    by (simp add: check_token_expiration_def)
next
  fix ok self' w'
  assume "expired" and "authenticate_session L self None True w = (Inr ok, self', w')"
  with tok exp show "check_token_expiration L self w = (Inr (), self', w')"
    by (simp add: check_token_expiration_def)
next
  fix e self' w'
  assume "expired" and "authenticate_session L self None True w = (Inl e, self', w')"
  with tok exp show "check_token_expiration L self w = (Inl e, self', w')"
    by (simp add: check_token_expiration_def)
next
  assume a: "expired \<and> encode_ascii (client_id self @ '':'' @ client_secret self) = Inr cred"
  with tok exp have "snd (snd (check_token_expiration L self w))
      = snd (snd (authenticate_session L self None True w))"
    by (simp add: check_token_expiration_def split: prod.splits sum.splits)
  with a tok refresh_request_sent [of self t cred L w]
  show "Post (COMMON_API_URI @ ''/access_token'')
           [(''Authorization'', ''Basic '' @ b64encode L cred), (''User-Agent'', USER_AGENT)]
           [(''grant_type'', JStr ''refresh_token''), (''refresh_token'', refresh_token t)]
         \<in> set (trace (snd (snd (check_token_expiration L self w))))"
    by simp
next
  assume b: "expired \<and> encode_ascii (client_id self @ '':'' @ client_secret self) = Inr cred
         \<and> network w (requests_made w) = (d, Answer r)
         \<and> (status_code r \<noteq> 200 \<or> body r = None)"
  with tok have fail: "fst (authenticate_session L self None True w) = Inr False
    \<and> fst (snd (authenticate_session L self None True w)) = self"
    by (auto simp: authenticate_session_def token_request_data_def requests_post_def
      send_def logging_def Let_def split: option.splits)
  then show "fst (authenticate_session L self None True w) = Inr False" by simp
  from fail b tok exp show "fst (check_token_expiration L self w) = Inr ()"
    by (cases "authenticate_session L self None True w")
      (simp add: check_token_expiration_def)
  from fail b tok exp show "fst (snd (check_token_expiration L self w)) = self"
    by (cases "authenticate_session L self None True w")
      (simp add: check_token_expiration_def)
qed

text \<open>A token that is not expired at second 0, and the same token at second 3540
  with a refresh that is answered with status 401.\<close>

theorem check_token_expiration_refresh_witness:
  "check_token_expiration lib0 bot1 (world0 (script [answer 401 None])) =
     (Inr (), bot1, world0 (script [answer 401 None]))
   \<and> fst (check_token_expiration lib0 bot1
        ((world0 (script [answer 401 None]))\<lparr>clock := 3540\<rparr>)) = Inr ()
   \<and> fst (snd (check_token_expiration lib0 bot1
        ((world0 (script [answer 401 None]))\<lparr>clock := 3540\<rparr>))) = bot1
   \<and> Post ''https://www.reddit.com/api/v1/access_token''
        [(''Authorization'', ''Basic id:secret''), (''User-Agent'', USER_AGENT)]
        [(''grant_type'', JStr ''refresh_token''), (''refresh_token'', JStr ''R'')]
      \<in> set (trace (snd (snd (check_token_expiration lib0 bot1
        ((world0 (script [answer 401 None]))\<lparr>clock := 3540\<rparr>)))))"
  using check_token_expiration_refresh [of bot1 token0
      "world0 (script [answer 401 None])" False lib0]
    check_token_expiration_refresh [of bot1 token0
      "(world0 (script [answer 401 None]))\<lparr>clock := 3540\<rparr>" True lib0 "''id:secret''" 1
      "\<lparr>status_code = 401, url = ''https://www.reddit.com/'', body = None\<rparr>"]
  by (simp add: is_expired_eval encode_ascii_def example_defs COMMON_API_URI_def)

text \<open>
  C8 as stated fails: the token is present and expired, the refresh is answered with
  status 200 and an object without \<open>access_token\<close>, and \<open>check_token_expiration\<close>
  raises \<^verbatim>\<open>KeyError\<close> instead of returning normally.
\<close>

theorem check_token_expiration_raises_counterexample:
  "token bot1 = Some token0
   \<and> is_expired token0 4000 = Inr True
   \<and> fst (check_token_expiration lib0 bot1
        ((world0 (script [answer 200 (Some (JObj [(''error'', JStr ''invalid_grant'')]))]))
           \<lparr>clock := 4000\<rparr>))
      = Inl (KeyError ''access_token'')"
  by (simp add: bot_defs env_defs example_defs)

section \<open>Posting and deleting\<close>

lemma post_comment_default:
  "Token_issued_at_default (snd (snd (post_comment L self w))) = Token_issued_at_default w"
proof (cases "check_token_expiration L self w")
  case (fields res self1 w1)
  with check_token_expiration_default [of L self w]
  have w1: "Token_issued_at_default w1 = Token_issued_at_default w" by simp
  show ?thesis
  proof (cases "network w1 (requests_made w1)")
    case (Pair d out)
    with fields w1 show ?thesis
      by (auto simp: post_comment_def requests_post_def send_def logging_def print_def
        Let_def split: outcome.splits option.splits sum.splits)
  qed
qed

lemma delete_comment_default:
  "Token_issued_at_default (snd (snd (delete_comment L self w))) = Token_issued_at_default w"
proof (cases "check_token_expiration L self w")
  case (fields res self1 w1)
  with check_token_expiration_default [of L self w]
  have w1: "Token_issued_at_default w1 = Token_issued_at_default w" by simp
  show ?thesis
  proof (cases "network w1 (requests_made w1)")
    case (Pair d out)
    with fields w1 show ?thesis
      by (auto simp: delete_comment_def requests_post_def send_def logging_def print_def
        Let_def split: outcome.splits option.splits sum.splits)
  qed
qed

lemma post_comment_no_del:
  "filter is_del (trace (snd (snd (post_comment L self w)))) = filter is_del (trace w)"
proof (cases "check_token_expiration L self w")
  case (fields res self1 w1)
  with check_token_expiration_no_del [of L self w]
  have w1: "filter is_del (trace w1) = filter is_del (trace w)" by simp
  show ?thesis
  proof (cases "network w1 (requests_made w1)")
    case (Pair d out)
    with fields w1 show ?thesis
      by (auto simp: post_comment_def requests_post_def send_def logging_def print_def
        Let_def OAUTH_API_URI_def
        split: outcome.splits option.splits sum.splits)
  qed
qed

text \<open>
  C5, amended. When the expiry check has returned and the comment endpoint answers,
  \<open>post_comment\<close> returns true exactly when the status is 200 and the body parses to a
  value whose subscript \<open>name\<close> exists, and then \<open>last_comment_fullname\<close> is that
  value and nothing else of the controller has changed; it returns false exactly when
  the status is not 200 or the body does not parse, and then \<open>last_comment_fullname\<close> is
  what it was before the call.
\<close>

theorem post_comment_result:
  assumes chk: "check_token_expiration L self w = (Inr (), self1, w1)"
    and net: "network w1 (requests_made w1) = (d, Answer r)"
  shows "(fst (post_comment L self w) = Inr True \<longleftrightarrow>
            status_code r = 200 \<and> (\<exists>j v. body r = Some j \<and> getitem j ''name'' = Inr v))
    \<and> (fst (post_comment L self w) = Inr False \<longleftrightarrow> status_code r \<noteq> 200 \<or> body r = None)
    \<and> (\<forall>j v. status_code r = 200 \<and> body r = Some j \<and> getitem j ''name'' = Inr v \<longrightarrow>
           fst (snd (post_comment L self w)) = self1\<lparr>last_comment_fullname := v\<rparr>)
    \<and> (status_code r \<noteq> 200 \<or> body r = None \<longrightarrow>
           last_comment_fullname (fst (snd (post_comment L self w)))
             = last_comment_fullname self)"
proof -
  from check_token_expiration_fullname [of L self w] chk
  have same: "last_comment_fullname self1 = last_comment_fullname self" by simp
  from net have sent: "\<And>ev. send ev (logging INFO ''Posting comment...'' w1) =
      (Inr r, (logging INFO ''Posting comment...'' w1)
         \<lparr>clock := clock w1 + d, requests_made := Suc (requests_made w1),
          trace := trace (logging INFO ''Posting comment...'' w1) @ [ev]\<rparr>)"
    by (simp add: send_def logging_def)
  show ?thesis
    using chk same
    by (auto simp: post_comment_def requests_post_def sent Let_def
        split: option.splits sum.splits)
qed

text \<open>A comment that is posted, and a post that is answered with status 500 while an
  earlier comment is recorded.\<close>

theorem post_comment_result_witness:
  "fst (post_comment lib0 bot1
          (world0 (script [answer 200 (Some (JObj [(''name'', JStr ''t1_abc'')]))]))) = Inr True
   \<and> fst (snd (post_comment lib0 bot1
          (world0 (script [answer 200 (Some (JObj [(''name'', JStr ''t1_abc'')]))]))))
       = bot1\<lparr>last_comment_fullname := JStr ''t1_abc''\<rparr>
   \<and> fst (post_comment lib0 (bot1\<lparr>last_comment_fullname := JStr ''t1_old''\<rparr>)
          (world0 (script [answer 500 None]))) = Inr False
   \<and> last_comment_fullname (fst (snd (post_comment lib0
          (bot1\<lparr>last_comment_fullname := JStr ''t1_old''\<rparr>)
          (world0 (script [answer 500 None]))))) = JStr ''t1_old''"
  using post_comment_result [of lib0 bot1
      "world0 (script [answer 200 (Some (JObj [(''name'', JStr ''t1_abc'')]))])"
      bot1
      "world0 (script [answer 200 (Some (JObj [(''name'', JStr ''t1_abc'')]))])"
      1 "\<lparr>status_code = 200, url = ''https://www.reddit.com/'',
          body = Some (JObj [(''name'', JStr ''t1_abc'')])\<rparr>"]
    post_comment_result [of lib0 "bot1\<lparr>last_comment_fullname := JStr ''t1_old''\<rparr>"
      "world0 (script [answer 500 None])"
      "bot1\<lparr>last_comment_fullname := JStr ''t1_old''\<rparr>"
      "world0 (script [answer 500 None])"
      1 "\<lparr>status_code = 500, url = ''https://www.reddit.com/'', body = None\<rparr>"]
  by (simp add: check_token_expiration_def is_expired_eval example_defs)

text \<open>
  C5 as stated fails: the comment endpoint answers with status 200 and a body that
  parses, an object without \<open>name\<close>, and \<open>post_comment\<close> does not return true: it raises
  \<^verbatim>\<open>KeyError\<close>.
\<close>

theorem post_comment_missing_name_counterexample:
  "fst (post_comment lib0 bot1
          (world0 (script [answer 200 (Some (JObj [(''error'', JStr ''RATELIMIT'')]))])))
     = Inl (KeyError ''name'')"
  by (simp add: bot_defs env_defs example_defs)

text \<open>
  C10. On status 200 with a body that parses to an object without an expected key
  the operation raises: \<open>post_comment\<close> raises \<^verbatim>\<open>KeyError\<close> when \<open>name\<close> is missing,
  and the first-time \<open>authenticate_session\<close> raises when any of \<open>access_token\<close>,
  \<open>expires_in\<close>, \<open>scope\<close> and \<open>refresh_token\<close> is missing. Neither returns false, and
  the controller is as it was when the request was sent, so that a token that was
  unset is still unset.
\<close>

theorem missing_key_raises:
  "(check_token_expiration L self w = (Inr (), self1, w1)
      \<and> network w1 (requests_made w1) = (d, Answer r)
      \<and> status_code r = 200 \<and> body r = Some (JObj kvs) \<and> map_of kvs ''name'' = None
    \<longrightarrow> fst (post_comment L self w) = Inl (KeyError ''name'')
        \<and> fst (snd (post_comment L self w)) = self1)
   \<and> (encode_ascii (client_id self' @ '':'' @ client_secret self') = Inr cred
      \<and> network w' (requests_made w') = (d', Answer r')
      \<and> status_code r' = 200 \<and> body r' = Some (JObj kvs')
      \<and> k \<in> set [''access_token'', ''expires_in'', ''scope'', ''refresh_token'']
      \<and> map_of kvs' k = None
    \<longrightarrow> (\<exists>e. fst (authenticate_session L self' code False w') = Inl e)
        \<and> fst (snd (authenticate_session L self' code False w')) = self')"
proof (intro conjI impI)
  assume a: "check_token_expiration L self w = (Inr (), self1, w1)
      \<and> network w1 (requests_made w1) = (d, Answer r)
      \<and> status_code r = 200 \<and> body r = Some (JObj kvs) \<and> map_of kvs ''name'' = None"
  then have sent: "\<And>ev. send ev (logging INFO ''Posting comment...'' w1) =
      (Inr r, (logging INFO ''Posting comment...'' w1)
         \<lparr>clock := clock w1 + d, requests_made := Suc (requests_made w1),
          trace := trace (logging INFO ''Posting comment...'' w1) @ [ev]\<rparr>)"
    by (simp add: send_def logging_def)
  from a show "fst (post_comment L self w) = Inl (KeyError ''name'')"
    by (simp add: post_comment_def requests_post_def sent Let_def)
  from a show "fst (snd (post_comment L self w)) = self1"
    by (simp add: post_comment_def requests_post_def sent Let_def)
next
  assume b: "encode_ascii (client_id self' @ '':'' @ client_secret self') = Inr cred
      \<and> network w' (requests_made w') = (d', Answer r')
      \<and> status_code r' = 200 \<and> body r' = Some (JObj kvs')
      \<and> k \<in> set [''access_token'', ''expires_in'', ''scope'', ''refresh_token'']
      \<and> map_of kvs' k = None"
  then have sent: "\<And>ev. send ev (logging INFO ''Initializing session...'' w') =
      (Inr r', (logging INFO ''Initializing session...'' w')
         \<lparr>clock := clock w' + d', requests_made := Suc (requests_made w'),
          trace := trace (logging INFO ''Initializing session...'' w') @ [ev]\<rparr>)"
    by (simp add: send_def logging_def)
  from b have "\<And>v. \<exists>e. new_Token L (JObj kvs') v = Inl e"
    by (blast intro: new_Token_missing)
  then obtain e where e: "new_Token L (JObj kvs')
      ((logging INFO ''Initializing session...'' w')
         \<lparr>clock := clock w' + d', requests_made := Suc (requests_made w'),
          trace := trace (logging INFO ''Initializing session...'' w') @
            [Post (COMMON_API_URI @ ''/access_token'')
              [(''Authorization'', ''Basic '' @ b64encode L cred), (''User-Agent'', USER_AGENT)]
              [(''grant_type'', JStr ''authorization_code''),
               (''code'', case code of None \<Rightarrow> JNull | Some c \<Rightarrow> JStr c),
               (''redirect_uri'', JStr REDIRECT_URI)]]\<rparr>) = Inl e"
    by blast
  from b e show "\<exists>e. fst (authenticate_session L self' code False w') = Inl e"
    by (simp add: authenticate_session_def token_request_data_def requests_post_def sent
        Let_def)
  from b e show "fst (snd (authenticate_session L self' code False w')) = self'"
    by (simp add: authenticate_session_def token_request_data_def requests_post_def sent
        Let_def)
qed

text \<open>A comment answer without \<open>name\<close>, and a token answer without
  \<open>refresh_token\<close>.\<close>

theorem missing_key_raises_witness:
  "fst (post_comment lib0 bot1
          (world0 (script [answer 200 (Some (JObj [(''id'', JStr ''abc'')]))])))
     = Inl (KeyError ''name'')
   \<and> (\<exists>e. fst (authenticate_session lib0 bot0 (Some ''c'') False
          (world0 (script [answer 200 (Some (JObj [(''access_token'', JStr ''A''),
             (''expires_in'', JInt 3600), (''scope'', JStr ''edit submit'')]))]))) = Inl e)
   \<and> token (fst (snd (authenticate_session lib0 bot0 (Some ''c'') False
          (world0 (script [answer 200 (Some (JObj [(''access_token'', JStr ''A''),
             (''expires_in'', JInt 3600), (''scope'', JStr ''edit submit'')]))]))))) = None"
  using missing_key_raises [of lib0 bot1
      "world0 (script [answer 200 (Some (JObj [(''id'', JStr ''abc'')]))])"
      bot1
      "world0 (script [answer 200 (Some (JObj [(''id'', JStr ''abc'')]))])"
      1 "\<lparr>status_code = 200, url = ''https://www.reddit.com/'',
          body = Some (JObj [(''id'', JStr ''abc'')])\<rparr>"
      "[(''id'', JStr ''abc'')]"
      bot0 "''id:secret''"
      "world0 (script [answer 200 (Some (JObj [(''access_token'', JStr ''A''),
             (''expires_in'', JInt 3600), (''scope'', JStr ''edit submit'')]))])"
      1 "\<lparr>status_code = 200, url = ''https://www.reddit.com/'',
          body = Some (JObj [(''access_token'', JStr ''A''),
             (''expires_in'', JInt 3600), (''scope'', JStr ''edit submit'')])\<rparr>"
      "[(''access_token'', JStr ''A''),
             (''expires_in'', JInt 3600), (''scope'', JStr ''edit submit'')]"
      "''refresh_token''" "Some ''c''"]
  by (simp add: check_token_expiration_def is_expired_eval encode_ascii_def example_defs)

section \<open>The loop\<close>

text \<open>More fuel never changes a result: a loop that was left is left in the same
  state however many iterations were allowed.\<close>

lemma run_loop_more_fuel:
  "run_loop L n self w = Some res \<Longrightarrow> run_loop L (Suc n) self w = Some res"
proof (induction n arbitrary: self w)
  case 0
  then show ?case by simp
next
  case (Suc n)
  obtain p self1 w1 where post: "post_comment L self w = (p, self1, w1)"
    by (cases "post_comment L self w")
  obtain q self2 w3 where del: "delete_comment L self1 (time_sleep 900 w1) = (q, self2, w3)"
    by (cases "delete_comment L self1 (time_sleep 900 w1)")
  show ?case
  proof (cases "p = Inr True")
    case False
    with Suc.prems post show ?thesis
      by (subst run_loop.simps) (auto split: sum.splits)
  next
    case True
    show ?thesis
    proof (cases "truthy (last_comment_fullname self1)")
      case False
      with Suc.prems post True have "run_loop L n self1 (time_sleep 900 w1) = Some res"
        by simp
      then have "run_loop L (Suc n) self1 (time_sleep 900 w1) = Some res"
        by (rule Suc.IH)
      with post True False show ?thesis
        by (subst run_loop.simps) simp
    next
      case t: True
      show ?thesis
      proof (cases "q = Inr True")
        case False
        with Suc.prems post True t del show ?thesis
          by (subst run_loop.simps) (auto split: sum.splits)
      next
        case q: True
        with Suc.prems post True t del
        have "run_loop L n self2 (time_sleep 15 w3) = Some res"
          by simp
        then have "run_loop L (Suc n) self2 (time_sleep 15 w3) = Some res"
          by (rule Suc.IH)
        with post True t del q show ?thesis
          by (subst run_loop.simps) simp
      qed
    qed
  qed
qed

text \<open>In a world of good answers every operation succeeds and leaves such a world.\<close>

lemma always_good_next:
  assumes "always_good w"
  obtains d r kvs v a x e s where "network w (requests_made w) = (d, Answer r)"
    and "status_code r = 200" and "body r = Some (JObj kvs)"
    and "map_of kvs ''name'' = Some v" and "truthy v"
    and "map_of kvs ''access_token'' = Some a"
    and "map_of kvs ''expires_in'' = Some x" and "py_num x = Some e"
    and "map_of kvs ''scope'' = Some s"
proof -
  from assms have "case snd (network w (requests_made w)) of
      Answer r \<Rightarrow> good_answer r | Raise e \<Rightarrow> False"
    by (simp add: always_good_def)
  then obtain d r where n: "network w (requests_made w) = (d, Answer r)" and g: "good_answer r"
    by (cases "network w (requests_made w)") (auto split: outcome.splits)
  from g show thesis
    using n that
    by (auto simp: good_answer_def split: option.splits json.splits)
qed

lemma always_good_step:
  assumes "always_good w" and "network w' = network w" and "requests_made w \<le> requests_made w'"
  shows "always_good w'"
  using assms by (simp add: always_good_def)

lemma always_good_sleep: "always_good w \<Longrightarrow> always_good (time_sleep d w)"
  by (simp add: always_good_def time_sleep_def)

lemma refresh_good:
  assumes "ready self" and "always_good w" and "token self = Some t"
  shows "\<exists>self1 w1. authenticate_session L self None True w = (Inr True, self1, w1)
    \<and> ready self1 \<and> always_good w1"
proof -
  from assms(1) have asc: "encode_ascii (client_id self @ '':'' @ client_secret self)
       = Inr (client_id self @ '':'' @ client_secret self)"
    by (simp add: ready_def)
  from assms(2) obtain d r kvs v a x e s where n: "network w (requests_made w) = (d, Answer r)"
    and r: "status_code r = 200" "body r = Some (JObj kvs)"
    and k: "map_of kvs ''access_token'' = Some a"
      "map_of kvs ''expires_in'' = Some x" "py_num x = Some e"
      "map_of kvs ''scope'' = Some s"
    by (rule always_good_next)
  from k have rf: "\<And>now. refresh t (JObj kvs) now =
      (Inr (), t\<lparr>access_token := a, expires_in := x, scope := s, issued_at := now\<rparr>)"
    by (simp add: refresh_def)
  let ?w1 = "print ''> Successfully refreshed authentication token.''
      ((logging INFO ''Initializing session...'' w)
         \<lparr>clock := clock w + d, requests_made := Suc (requests_made w),
          trace := trace (logging INFO ''Initializing session...'' w) @
            [Post (COMMON_API_URI @ ''/access_token'')
              [(''Authorization'',
                ''Basic '' @ b64encode L (client_id self @ '':'' @ client_secret self)),
               (''User-Agent'', USER_AGENT)]
              [(''grant_type'', JStr ''refresh_token''), (''refresh_token'', refresh_token t)]]\<rparr>)"
  let ?self1 = "self\<lparr>token := Some (t\<lparr>access_token := a, expires_in := x, scope := s,
      issued_at := clock w + d\<rparr>)\<rparr>"
  from asc assms(3) r have "authenticate_session L self None True w = (Inr True, ?self1, ?w1)"
    by (simp add: authenticate_session_def token_request_data_def requests_post_def send_def
        n rf Let_def logging_def print_def)
  moreover from asc k have "ready ?self1"
    by (simp add: ready_def)
  moreover from assms(2) have "always_good ?w1"
    by (rule always_good_step) (simp_all add: print_def logging_def)
  ultimately show ?thesis by blast
qed

lemma check_token_expiration_ready:
  assumes "ready self" and "always_good w"
  shows "\<exists>self1 w1. check_token_expiration L self w = (Inr (), self1, w1)
    \<and> ready self1 \<and> always_good w1"
proof -
  from assms(1) obtain t e where t: "token self = Some t" and e: "py_num (expires_in t) = Some e"
    by (auto simp: ready_def split: option.splits)
  from e obtain k where k: "py_sub_60 (expires_in t) = Inr k"
    using py_num_sub_60 by blast
  show ?thesis
  proof (cases "total_seconds (clock w - issued_at t) \<ge> k")
    case False
    with t k assms show ?thesis
      by (simp add: check_token_expiration_def is_expired_def)
  next
    case True
    from refresh_good [OF assms t, of L] obtain self1 w1
      where "authenticate_session L self None True w = (Inr True, self1, w1)"
        and "ready self1" and "always_good w1"
      by blast
    with t k True show ?thesis
      by (simp add: check_token_expiration_def is_expired_def)
  qed
qed

lemma post_comment_ready:
  assumes "ready self" and "always_good w"
  shows "\<exists>self1 w1. post_comment L self w = (Inr True, self1, w1)
    \<and> ready self1 \<and> always_good w1 \<and> truthy (last_comment_fullname self1)"
proof -
  from check_token_expiration_ready [OF assms, of L] obtain self1 w1
    where chk: "check_token_expiration L self w = (Inr (), self1, w1)"
      and rdy: "ready self1" and good: "always_good w1"
    by blast
  from good obtain d r kvs v where n: "network w1 (requests_made w1) = (d, Answer r)"
    and r: "status_code r = 200" "body r = Some (JObj kvs)"
    and k: "map_of kvs ''name'' = Some v" "truthy v"
    by (rule always_good_next)
  let ?self2 = "self1\<lparr>last_comment_fullname := v\<rparr>"
  from chk r k obtain w2 where res: "post_comment L self w = (Inr True, ?self2, w2)"
    and w2: "network w2 = network w1" "requests_made w2 = Suc (requests_made w1)"
    by (simp add: post_comment_def requests_post_def send_def n Let_def print_def logging_def)
  from good have "always_good w2"
    by (rule always_good_step) (simp_all add: w2)
  moreover from rdy have "ready ?self2"
    by (simp add: ready_def)
  ultimately show ?thesis
    using res k by simp
qed

lemma delete_comment_ready:
  assumes "ready self" and "always_good w"
  shows "\<exists>self1 w1. delete_comment L self w = (Inr True, self1, w1)
    \<and> ready self1 \<and> always_good w1"
proof -
  from check_token_expiration_ready [OF assms, of L] obtain self1 w1
    where chk: "check_token_expiration L self w = (Inr (), self1, w1)"
      and rdy: "ready self1" and good: "always_good w1"
    by blast
  from good obtain d r where n: "network w1 (requests_made w1) = (d, Answer r)"
    and r: "status_code r = 200"
    by (rule always_good_next)
  from chk r obtain w2 where res: "delete_comment L self w = (Inr True, self1, w2)"
    and w2: "network w2 = network w1" "requests_made w2 = Suc (requests_made w1)"
    by (simp add: delete_comment_def requests_post_def send_def n Let_def print_def
        logging_def)
  from good have "always_good w2"
    by (rule always_good_step) (simp_all add: w2)
  with rdy res show ?thesis by simp
qed

text \<open>So the loop is never left: whatever the fuel, it is still going.\<close>

lemma run_loop_forever:
  "ready self \<Longrightarrow> always_good w \<Longrightarrow> run_loop L n self w = None"
proof (induction n arbitrary: self w)
  case 0
  show ?case by simp
next
  case (Suc n)
  from post_comment_ready [OF Suc.prems, of L] obtain self1 w1
    where post: "post_comment L self w = (Inr True, self1, w1)"
      and r1: "ready self1" and g1: "always_good w1"
      and tr: "truthy (last_comment_fullname self1)"
    by blast
  from g1 have g2: "always_good (time_sleep 900 w1)"
    by (rule always_good_sleep)
  from delete_comment_ready [OF r1 g2, of L] obtain self2 w3
    where del: "delete_comment L self1 (time_sleep 900 w1) = (Inr True, self2, w3)"
      and r2: "ready self2" and g3: "always_good w3"
    by blast
  from g3 have "always_good (time_sleep 15 w3)"
    by (rule always_good_sleep)
  with r2 have "run_loop L n self2 (time_sleep 15 w3) = None"
    by (rule Suc.IH)
  with post tr del show ?case by simp
qed

text \<open>The scenario of the specification: the first comment is posted as \<open>t1_abc\<close> and
  deleted under that identifier, the second post is answered with status 500, and
  \<open>run\<close> returns with one delete request sent.\<close>

lemma run_scenario:
  "map_option (\<lambda>(res, self', w'). (res, filter is_del (trace w')))
     (run lib0 5 bot1
        (world0 (script [answer 200 (Some (JObj [(''name'', JStr ''t1_abc'')])),
                         answer 200 None, answer 500 None])))
   = Some (Inr (),
       [Post ''https://oauth.reddit.com/api/del''
          [(''Authorization'', ''bearer A''), (''User-Agent'', USER_AGENT)]
          [(''id'', JStr ''t1_abc'')]])"
  by (simp add: run_def bot_defs env_defs example_defs eval_nat_numeral)

text \<open>The operations of the four inputs below.\<close>

lemma example_post_fails:
  "fst (post_comment lib0 bot1 (world0 (script [answer 500 None]))) = Inr False"
  by (simp add: bot_defs env_defs example_defs)

lemma example_post_null:
  "fst (post_comment lib0 bot1 (world0 (script [answer 200 (Some (JObj [(''name'', JNull)]))])))
     = Inr True
   \<and> last_comment_fullname (fst (snd (post_comment lib0 bot1
        (world0 (script [answer 200 (Some (JObj [(''name'', JNull)]))]))))) = JNull"
  by (simp add: bot_defs env_defs example_defs)

lemma example_post_named:
  "fst (post_comment lib0 bot1
      (world0 (script [answer 200 (Some (JObj [(''name'', JStr ''t1_abc'')])), a]))) = Inr True
   \<and> fst (snd (post_comment lib0 bot1
      (world0 (script [answer 200 (Some (JObj [(''name'', JStr ''t1_abc'')])), a]))))
       = bot1\<lparr>last_comment_fullname := JStr ''t1_abc''\<rparr>"
  by (simp add: bot_defs env_defs example_defs)

lemma example_delete:
  "fst (delete_comment lib0 (bot1\<lparr>last_comment_fullname := JStr ''t1_abc''\<rparr>)
      (time_sleep 900 (snd (snd (post_comment lib0 bot1
         (world0 (script [answer 200 (Some (JObj [(''name'', JStr ''t1_abc'')])),
            answer st None]))))))) = Inr (st = 200)"
  by (simp add: bot_defs env_defs example_defs)

lemma always_good_steady:
  "always_good (world0 (steady (JObj [(''name'', JStr ''t1_abc''), (''access_token'', JStr ''B''),
      (''expires_in'', JInt 3600), (''scope'', JStr ''edit submit'')])))"
  by (simp add: always_good_def good_answer_def example_defs)

lemma ready_bot1: "ready bot1"
  by (simp add: ready_def encode_ascii_def example_defs)

text \<open>
  C3, amended. One iteration of the loop of \<open>run\<close>, for any number of further
  iterations allowed: if \<open>post_comment\<close> returns false the loop is left at once in the
  state that \<open>post_comment\<close> left, and no request to the delete endpoint has been
  added to the trace; if it returns true the loop sleeps 900 seconds, and then, if the
  identifier is falsy, goes on to the next iteration without a delete and without a
  further sleep; if the identifier is truthy it calls \<open>delete_comment\<close>, is left when
  that returns false, and otherwise sleeps 15 seconds and goes on to the next
  iteration. The loop has no other exit: where every request is answered well, \<open>run\<close>
  does not return, whatever the number of iterations allowed.
\<close>

theorem run_loop_cycle:
  "(post_comment L self w = (Inr False, self1, w1) \<longrightarrow>
      run_loop L (Suc n) self w = Some (Inr (), self1, w1)
      \<and> filter is_del (trace w1) = filter is_del (trace w))
   \<and> (post_comment L self w = (Inr True, self1, w1)
        \<and> \<not> truthy (last_comment_fullname self1) \<longrightarrow>
      run_loop L (Suc n) self w = run_loop L n self1 (time_sleep 900 w1))
   \<and> (post_comment L self w = (Inr True, self1, w1)
        \<and> truthy (last_comment_fullname self1)
        \<and> delete_comment L self1 (time_sleep 900 w1) = (Inr False, self2, w2) \<longrightarrow>
      run_loop L (Suc n) self w = Some (Inr (), self2, w2))
   \<and> (post_comment L self w = (Inr True, self1, w1)
        \<and> truthy (last_comment_fullname self1)
        \<and> delete_comment L self1 (time_sleep 900 w1) = (Inr True, self2, w2) \<longrightarrow>
      run_loop L (Suc n) self w = run_loop L n self2 (time_sleep 15 w2))
   \<and> (ready self \<and> always_good w \<longrightarrow> run L n self w = None)"
proof (intro conjI impI)
  assume a: "post_comment L self w = (Inr False, self1, w1)"
  then show "run_loop L (Suc n) self w = Some (Inr (), self1, w1)"
    by simp
  from a post_comment_no_del [of L self w]
  show "filter is_del (trace w1) = filter is_del (trace w)"
    by simp
next
  assume "post_comment L self w = (Inr True, self1, w1)
        \<and> \<not> truthy (last_comment_fullname self1)"
  then show "run_loop L (Suc n) self w = run_loop L n self1 (time_sleep 900 w1)"
    by simp
next
  assume "post_comment L self w = (Inr True, self1, w1)
        \<and> truthy (last_comment_fullname self1)
        \<and> delete_comment L self1 (time_sleep 900 w1) = (Inr False, self2, w2)"
  then show "run_loop L (Suc n) self w = Some (Inr (), self2, w2)"
    by simp
next
  assume "post_comment L self w = (Inr True, self1, w1)
        \<and> truthy (last_comment_fullname self1)
        \<and> delete_comment L self1 (time_sleep 900 w1) = (Inr True, self2, w2)"
  then show "run_loop L (Suc n) self w = run_loop L n self2 (time_sleep 15 w2)"
    by simp
next
  assume "ready self \<and> always_good w"
  then have "ready self" and "always_good (logging INFO ''Running...'' w)"
    by (simp_all add: always_good_def logging_def)
  then show "run L n self w = None"
    unfolding run_def by (rule run_loop_forever)
qed

text \<open>A post that fails; a post without identifier; a delete that fails; a delete
  that succeeds; a network that always answers well.\<close>

theorem run_loop_cycle_witness:
  "map_option fst (run_loop lib0 1 bot1 (world0 (script [answer 500 None]))) = Some (Inr ())
   \<and> run_loop lib0 1 bot1 (world0 (script [answer 200 (Some (JObj [(''name'', JNull)]))])) = None
   \<and> map_option fst (run_loop lib0 1 bot1
        (world0 (script [answer 200 (Some (JObj [(''name'', JStr ''t1_abc'')])),
           answer 500 None]))) = Some (Inr ())
   \<and> run_loop lib0 1 bot1
        (world0 (script [answer 200 (Some (JObj [(''name'', JStr ''t1_abc'')])),
           answer 200 None])) = None
   \<and> (\<forall>n. run lib0 n bot1 (world0 (steady (JObj [(''name'', JStr ''t1_abc''),
         (''access_token'', JStr ''B''), (''expires_in'', JInt 3600),
         (''scope'', JStr ''edit submit'')]))) = None)"
proof (intro conjI allI)
  let ?wa = "world0 (script [answer 500 None])"
  let ?s1 = "fst (snd (post_comment lib0 bot1 ?wa))"
  let ?w1 = "snd (snd (post_comment lib0 bot1 ?wa))"
  have "fst (post_comment lib0 bot1 ?wa) = Inr False"
    by (rule example_post_fails)
  then have post: "post_comment lib0 bot1 ?wa = (Inr False, ?s1, ?w1)"
    by (simp add: prod_eq_iff)
  note run_loop_cycle [of lib0 bot1 ?wa ?s1 ?w1 0, THEN conjunct1, THEN mp, OF post,
      THEN conjunct1]
  then have "map_option fst (run_loop lib0 (Suc 0) bot1 ?wa) = map_option fst (Some (Inr (), ?s1, ?w1))"
    by (rule arg_cong)
  then show "map_option fst (run_loop lib0 1 bot1 ?wa) = Some (Inr ())"
    by (simp only: One_nat_def option.map fst_conv)
next
  let ?wb = "world0 (script [answer 200 (Some (JObj [(''name'', JNull)]))])"
  let ?s1 = "fst (snd (post_comment lib0 bot1 ?wb))"
  let ?w1 = "snd (snd (post_comment lib0 bot1 ?wb))"
  have "fst (post_comment lib0 bot1 ?wb) = Inr True"
    by (rule example_post_null [THEN conjunct1])
  then have post: "post_comment lib0 bot1 ?wb = (Inr True, ?s1, ?w1)"
    by (simp add: prod_eq_iff)
  have falsy: "\<not> truthy (last_comment_fullname ?s1)"
    by (simp only: example_post_null [THEN conjunct2] truthy.simps) simp
  note run_loop_cycle [of lib0 bot1 ?wb ?s1 ?w1 0, THEN conjunct2, THEN conjunct1, THEN mp,
      OF conjI [OF post falsy]]
  then show "run_loop lib0 1 bot1 ?wb = None"
    by (simp only: One_nat_def run_loop.simps(1))
next
  let ?wc = "world0 (script [answer 200 (Some (JObj [(''name'', JStr ''t1_abc'')])),
           answer 500 None])"
  let ?b = "bot1\<lparr>last_comment_fullname := JStr ''t1_abc''\<rparr>"
  let ?w1 = "snd (snd (post_comment lib0 bot1 ?wc))"
  let ?s2 = "fst (snd (delete_comment lib0 ?b (time_sleep 900 ?w1)))"
  let ?w2 = "snd (snd (delete_comment lib0 ?b (time_sleep 900 ?w1)))"
  have post: "post_comment lib0 bot1 ?wc = (Inr True, ?b, ?w1)"
    using example_post_named [of "answer 500 None"]
    by (simp add: prod_eq_iff)
  have named: "truthy (last_comment_fullname ?b)"
    by simp
  have "fst (delete_comment lib0 ?b (time_sleep 900 ?w1)) = Inr False"
    using example_delete [of 500] by simp
  then have del: "delete_comment lib0 ?b (time_sleep 900 ?w1) = (Inr False, ?s2, ?w2)"
    by (simp add: prod_eq_iff)
  note run_loop_cycle [of lib0 bot1 ?wc ?b ?w1 0 ?s2 ?w2, THEN conjunct2, THEN conjunct2,
      THEN conjunct1, THEN mp, OF conjI [OF post conjI [OF named del]]]
  then have "map_option fst (run_loop lib0 (Suc 0) bot1 ?wc) = map_option fst (Some (Inr (), ?s2, ?w2))"
    by (rule arg_cong)
  then show "map_option fst (run_loop lib0 1 bot1 ?wc) = Some (Inr ())"
    by (simp only: One_nat_def option.map fst_conv)
next
  let ?wd = "world0 (script [answer 200 (Some (JObj [(''name'', JStr ''t1_abc'')])),
           answer 200 None])"
  let ?b = "bot1\<lparr>last_comment_fullname := JStr ''t1_abc''\<rparr>"
  let ?w1 = "snd (snd (post_comment lib0 bot1 ?wd))"
  let ?s2 = "fst (snd (delete_comment lib0 ?b (time_sleep 900 ?w1)))"
  let ?w2 = "snd (snd (delete_comment lib0 ?b (time_sleep 900 ?w1)))"
  have post: "post_comment lib0 bot1 ?wd = (Inr True, ?b, ?w1)"
    using example_post_named [of "answer 200 None"]
    by (simp add: prod_eq_iff)
  have named: "truthy (last_comment_fullname ?b)"
    by simp
  have "fst (delete_comment lib0 ?b (time_sleep 900 ?w1)) = Inr True"
    using example_delete [of 200] by simp
  then have del: "delete_comment lib0 ?b (time_sleep 900 ?w1) = (Inr True, ?s2, ?w2)"
    by (simp add: prod_eq_iff)
  note run_loop_cycle [of lib0 bot1 ?wd ?b ?w1 0 ?s2 ?w2, THEN conjunct2, THEN conjunct2,
      THEN conjunct2, THEN conjunct1, THEN mp, OF conjI [OF post conjI [OF named del]]]
  then show "run_loop lib0 1 bot1 ?wd = None"
    by (simp only: One_nat_def run_loop.simps(1))
next
  fix n
  let ?wg = "world0 (steady (JObj [(''name'', JStr ''t1_abc''),
         (''access_token'', JStr ''B''), (''expires_in'', JInt 3600),
         (''scope'', JStr ''edit submit'')]))"
  show "run lib0 n bot1 ?wg = None"
    by (rule run_loop_cycle [of lib0 bot1 ?wg bot1 ?wg n bot1 ?wg, THEN conjunct2,
      THEN conjunct2, THEN conjunct2, THEN conjunct2, THEN mp,
      OF conjI [OF ready_bot1 always_good_steady]])
qed

text \<open>
  C3 as stated fails: the first post is answered with status 200 and \<open>name\<close> null, the
  second with status 500. The code sleeps 900 seconds and posts again, so that it is
  left at second 902 with no sleep of 15 seconds in its trace; the cycle of the claim
  sleeps 15 seconds before it repeats and is left at second 917.
\<close>

theorem run_loop_sleep_counterexample:
  "run_loop lib0 2 bot1
      (world0 (script [answer 200 (Some (JObj [(''name'', JNull)])), answer 500 None])) \<noteq> None
   \<and> fst (the (run_loop lib0 2 bot1
      (world0 (script [answer 200 (Some (JObj [(''name'', JNull)])), answer 500 None]))))
     = Inr ()
   \<and> clock (snd (snd (the (run_loop lib0 2 bot1
      (world0 (script [answer 200 (Some (JObj [(''name'', JNull)])), answer 500 None]))))))
     = 902
   \<and> Sleep 15 \<notin> set (trace (snd (snd (the (run_loop lib0 2 bot1
      (world0 (script [answer 200 (Some (JObj [(''name'', JNull)])), answer 500 None])))))))
   \<and> clock (snd (snd (the (run_loop_spec lib0 2 bot1
      (world0 (script [answer 200 (Some (JObj [(''name'', JNull)])), answer 500 None]))))))
     = 917
   \<and> Sleep 15 \<in> set (trace (snd (snd (the (run_loop_spec lib0 2 bot1
      (world0 (script [answer 200 (Some (JObj [(''name'', JNull)])), answer 500 None])))))))"
  by (simp add: bot_defs env_defs example_defs numeral_2_eq_2)

end
